theory Spec2Isabelle
  imports Complex_Main "HOL-Library.Word"
begin

unbundle bit_operations_syntax

section \<open>PCM codec (src/utils/audio.ts)\<close>

text \<open>
  Audio samples are JavaScript numbers. A \<open>Float32Array\<close> element read back is a
  finite binary fraction with a 24-bit significand, and every intermediate value of
  \<open>float32ToInt16\<close> and \<open>int16ToFloat32\<close> (a product with \<open>0x7FFF\<close> or \<open>0x8000\<close>, a
  quotient by \<open>0x8000\<close>) is exactly representable in double precision, so samples are
  modelled as \<open>real\<close> and these two functions with exact arithmetic; \<open>resampleAudio\<close>,
  whose intermediate values are not exact, rounds each of them. \<open>NaN\<close> and the
  infinities are outside the model. A typed array is modelled by the list of its elements, that is an array that
  spans its whole \<open>ArrayBuffer\<close>, as every array this repository builds does.
\<close>

type_synonym int16 = "16 word"
type_synonym uint8 = "8 word"

datatype js_error = RangeError | InvalidCharacterError | NotSupportedError

text \<open>
  Storing a number into an \<open>Int16Array\<close> applies ECMAScript \<open>ToInt16\<close>: the number is
  truncated towards zero and then wrapped modulo \<open>2^16\<close>.
\<close>

definition toInt16 :: "real \<Rightarrow> int16" where
  "toInt16 x = word_of_int (if x < 0 then \<lceil>x\<rceil> else \<lfloor>x\<rfloor>)"

definition clampSample :: "real \<Rightarrow> real" where
  "clampSample x = max (- 1) (min 1 x)"

definition float32ToInt16 :: "real list \<Rightarrow> int16 list" where
  "float32ToInt16 float32Array =
     map (\<lambda>x. let s = clampSample x
              in toInt16 (if s < 0 then s * 32768 else s * 32767)) float32Array"

definition int16ToFloat32 :: "int16 list \<Rightarrow> real list" where
  "int16ToFloat32 int16Array = map (\<lambda>w. real_of_int (sint w) / 32768) int16Array"

subsection \<open>Rounding to double and to float32\<close>

text \<open>
  \<open>resampleAudio\<close> computes with JavaScript numbers, so every arithmetic result is
  rounded to the nearest double (ties to even), and a value stored into a
  \<open>Float32Array\<close> is rounded to the nearest float32. \<open>roundBinary p emin emax x\<close> is the
  nearest multiple of \<open>2^(e - p + 1)\<close>, where \<open>e\<close> is the binary exponent of \<open>x\<close>, not
  below \<open>emin\<close> (the subnormal range shares the spacing of the lowest binade). A value
  that rounds to an infinity in IEEE arithmetic is outside the model, as \<open>NaN\<close> is:
  \<open>roundBinary\<close> keeps such a value on the grid of the top binade.
\<close>

definition roundTiesToEven :: "real \<Rightarrow> int" where
  "roundTiesToEven x =
     (let f = \<lfloor>x\<rfloor>; d = x - real_of_int f
      in if d < 1 / 2 then f else if 1 / 2 < d then f + 1 else if even f then f else f + 1)"

text \<open>The largest exponent \<open>e'\<close> from \<open>e\<close> downwards with \<open>2^e' \<le> x\<close>, but not below \<open>emin\<close>.\<close>

function binade :: "int \<Rightarrow> int \<Rightarrow> real \<Rightarrow> int" where
  "binade emin e x = (if e \<le> emin \<or> 2 powi e \<le> x then e else binade emin (e - 1) x)"
  by pat_completeness auto
termination
  by (relation "measure (\<lambda>(emin, e, x). nat (e - emin))") auto

declare binade.simps [simp del]

definition roundBinary :: "int \<Rightarrow> int \<Rightarrow> int \<Rightarrow> real \<Rightarrow> real" where
  "roundBinary p emin emax x =
     (let e = binade emin emax \<bar>x\<bar>;
          q = 2 powi (e - p + 1)
      in real_of_int (roundTiesToEven (x / q)) * q)"

definition toDouble :: "real \<Rightarrow> real" where
  "toDouble x = roundBinary 53 (- 1022) 1023 x"

definition toFloat32 :: "real \<Rightarrow> real" where
  "toFloat32 x = roundBinary 24 (- 126) 127 x"

subsection \<open>Resampling\<close>

text \<open>
  \<open>resampleAudio\<close>. The input holds float32 values and the rates are doubles.
  \<open>Math.round\<close> rounds half up, as \<open>round\<close> does. Where JavaScript divides by zero or
  overflows, the source's outcome is written out: a zero \<open>toSampleRate\<close> makes the ratio
  infinite and the length 0; a ratio of zero with a non-empty input makes the length
  infinite, and \<open>new Float32Array\<close> throws a \<open>RangeError\<close>, as it does for a negative
  length and for a length beyond the limit of the host (the limit is the host's; the
  model takes \<open>2^32 - 1\<close>). A quotient too large for a double is infinite in the source
  and large in the model, with the same outcome in both: length 0 when it is the ratio,
  \<open>RangeError\<close> when it is the length.
\<close>

definition MAX_TYPED_ARRAY_LENGTH :: int where
  "MAX_TYPED_ARRAY_LENGTH = 4294967295"

definition resampleAudio :: "real list \<Rightarrow> real \<Rightarrow> real \<Rightarrow> js_error + real list" where
  "resampleAudio audioData fromSampleRate toSampleRate =
     (if fromSampleRate = toSampleRate then Inr audioData
      else if toSampleRate = 0 then Inr []
      else
        let ratio = toDouble (fromSampleRate / toSampleRate)
        in if ratio = 0 then (if audioData = [] then Inr [] else Inl RangeError)
           else
             let newLength = round (toDouble (real (length audioData) / ratio))
             in if newLength < 0 \<or> MAX_TYPED_ARRAY_LENGTH < newLength then Inl RangeError
                else Inr (map (\<lambda>i.
                  let srcIndex = toDouble (real i * ratio);
                      srcIndexFloor = \<lfloor>srcIndex\<rfloor>;
                      srcIndexCeil = min (srcIndexFloor + 1) (int (length audioData) - 1);
                      fraction = toDouble (srcIndex - real_of_int srcIndexFloor)
                  in toFloat32 (toDouble
                       (toDouble (audioData ! nat srcIndexFloor * toDouble (1 - fraction))
                        + toDouble (audioData ! nat srcIndexCeil * fraction))))
                [0..<nat newLength]))"

text \<open>
  The specification's wording, for comparison with the function above: the \<open>i\<close>-th output
  sample is the linear interpolation between the two nearest input samples at the scaled
  fractional index \<open>i * ratio\<close>, the upper index clamped to the last input sample.
\<close>

definition spec_interpolation :: "real list \<Rightarrow> real \<Rightarrow> nat \<Rightarrow> real" where
  "spec_interpolation audioData ratio i =
     (let srcIndex = real i * ratio;
          lower = \<lfloor>srcIndex\<rfloor>;
          upper = min (lower + 1) (int (length audioData) - 1);
          fraction = srcIndex - real_of_int lower
      in audioData ! nat lower * (1 - fraction) + audioData ! nat upper * fraction)"

subsection \<open>The byte view of an Int16Array\<close>

text \<open>
  \<open>new Uint8Array(int16Array.buffer)\<close> reads every element as two bytes, low byte
  first on the little-endian hosts browsers run on; \<open>new Int16Array(bytes.buffer)\<close>
  is the inverse view and throws a \<open>RangeError\<close> when the byte length is odd.
\<close>

definition int16_bytes :: "int16 \<Rightarrow> uint8 list" where
  "int16_bytes w = [ucast w, ucast (drop_bit 8 w)]"

definition uint8_view :: "int16 list \<Rightarrow> uint8 list" where
  "uint8_view ws = concat (map int16_bytes ws)"

fun int16_view :: "uint8 list \<Rightarrow> int16 list option" where
  "int16_view [] = Some []"
| "int16_view [b] = None"
| "int16_view (lo # hi # bs) =
     map_option (\<lambda>ws. (ucast lo OR push_bit 8 (ucast hi)) # ws) (int16_view bs)"

subsection \<open>The host's btoa and atob\<close>

text \<open>
  \<open>btoa\<close> and \<open>atob\<close> are host functions. They are modelled after the HTML standard:
  \<open>btoa\<close> is base64 with padding over the standard alphabet, \<open>atob\<close> is the
  forgiving-base64 decoder (ASCII whitespace removed, up to two padding characters
  removed when the length is a multiple of four, failure when the remaining length is
  1 modulo 4 or a character is outside the alphabet, trailing bits discarded). The
  binary string between them (one character per byte, \<open>String.fromCharCode\<close> and
  \<open>charCodeAt\<close>) is the byte list itself.
\<close>

definition b64chars :: string where
  "b64chars = ''ABCDEFGHIJKLMNOPQRSTUVWXYZabcdefghijklmnopqrstuvwxyz0123456789+/''"

fun sextets :: "uint8 list \<Rightarrow> nat list" where
  "sextets [] = []"
| "sextets [a] = (let n = unat a in [n div 4, n mod 4 * 16])"
| "sextets [a, b] =
     (let n = unat a * 256 + unat b in [n div 1024, n div 16 mod 64, n mod 16 * 4])"
| "sextets (a # b # c # bs) =
     (let n = unat a * 65536 + unat b * 256 + unat c
      in [n div 262144, n div 4096 mod 64, n div 64 mod 64, n mod 64] @ sextets bs)"

definition btoa :: "uint8 list \<Rightarrow> string" where
  "btoa bs = map (\<lambda>i. b64chars ! i) (sextets bs)
             @ replicate ((3 - length bs mod 3) mod 3) (CHR ''='')"

definition b64index :: "char \<Rightarrow> nat option" where
  "b64index c = (if c \<in> set b64chars
                 then Some (length (takeWhile (\<lambda>d. d \<noteq> c) b64chars)) else None)"

fun octets :: "nat list \<Rightarrow> uint8 list" where
  "octets (i # j # k # l # rest) =
     (let n = ((i * 64 + j) * 64 + k) * 64 + l
      in [of_nat (n div 65536), of_nat (n div 256 mod 256), of_nat (n mod 256)] @ octets rest)"
| "octets [i, j, k] =
     (let n = ((i * 64 + j) * 64 + k) div 4 in [of_nat (n div 256), of_nat (n mod 256)])"
| "octets [i, j] = [of_nat ((i * 64 + j) div 16)]"
| "octets _ = []"

definition ascii_whitespace :: "char \<Rightarrow> bool" where
  "ascii_whitespace c = (c \<in> {CHR 0x09, CHR 0x0A, CHR 0x0C, CHR 0x0D, CHR 0x20})"

definition strip_padding :: "string \<Rightarrow> string" where
  "strip_padding d =
     (if length d mod 4 = 0 \<and> d \<noteq> [] \<and> last d = CHR ''=''
      then (let d' = butlast d
            in if d' \<noteq> [] \<and> last d' = CHR ''='' then butlast d' else d')
      else d)"

definition atob :: "string \<Rightarrow> uint8 list option" where
  "atob data =
     (let d = strip_padding (filter (\<lambda>c. \<not> ascii_whitespace c) data)
      in if length d mod 4 = 1 then None
         else if list_ex (\<lambda>c. b64index c = None) d then None
         else Some (octets (map (\<lambda>c. the (b64index c)) d)))"

subsection \<open>The transport encoding\<close>

definition int16ToBase64 :: "int16 list \<Rightarrow> string" where
  "int16ToBase64 int16Array = btoa (uint8_view int16Array)"

definition base64ToInt16 :: "string \<Rightarrow> js_error + int16 list" where
  "base64ToInt16 base64 =
     (case atob base64 of
        None \<Rightarrow> Inl InvalidCharacterError
      | Some bytes \<Rightarrow>
          (case int16_view bytes of None \<Rightarrow> Inl RangeError | Some ws \<Rightarrow> Inr ws))"

text \<open>The output of \<open>btoa\<close> before the padding.\<close>

definition body :: "uint8 list \<Rightarrow> string" where
  "body bs = map (\<lambda>i. b64chars ! i) (sextets bs)"

subsection \<open>RMS and volume\<close>

text \<open>
  On an empty buffer JavaScript computes \<open>0 / 0 = NaN\<close> where HOL gives 0; the capture
  processor delivers blocks of 4096 samples and the analyser 256 bytes, never an empty
  buffer.
\<close>

definition AUDIO_CONFIG_sampleRate :: real where
  "AUDIO_CONFIG_sampleRate = 16000"

definition calculateRMS :: "real list \<Rightarrow> real" where
  "calculateRMS audioData =
     sqrt (foldl (\<lambda>sum x. sum + x * x) 0 audioData / real (length audioData))"

definition normalizeVolume :: "real \<Rightarrow> real" where
  "normalizeVolume rms = min 1 (rms * 3)"

record audio_buffer =
  samples :: "real list"
  bufferRate :: real

definition duration :: "audio_buffer \<Rightarrow> real" where
  "duration b = real (length (samples b)) / bufferRate b"

text \<open>
  \<open>createBuffer\<close> is the host's. It throws \<open>NotSupportedError\<close> for a length of zero
  and for a sample rate outside the range the host supports. That range is the host's
  choice; the model takes the one every implementation of the Web Audio API has to
  accept, and the properties below depend on it only through the outcome of decoding.
\<close>

definition supportedSampleRate :: "real \<Rightarrow> bool" where
  "supportedSampleRate r = (8000 \<le> r \<and> r \<le> 96000)"

definition createAudioBuffer :: "int16 list \<Rightarrow> real \<Rightarrow> js_error + audio_buffer" where
  "createAudioBuffer int16Data sampleRate =
     (let float32Data = int16ToFloat32 int16Data
      in if float32Data = [] \<or> \<not> supportedSampleRate sampleRate then Inl NotSupportedError
         else Inr \<lparr>samples = float32Data, bufferRate = sampleRate\<rparr>)"

section \<open>Shared state store (stores/chatStore.ts)\<close>

datatype connection_status = Disconnected | Connecting | Connected | Error
datatype pipeline_stage = Idle | Asr | Llm | Tts | Playing
datatype voice_mode = VoiceIdle | PushToTalk | VoiceCall
datatype role = User | Assistant
datatype ready_state = CONNECTING | OPEN | CLOSING | CLOSED

record chat_message =
  msg_id :: string
  role :: role
  content :: string
  contentJp :: "string option"
  emotion :: "string option"
  timestamp :: nat
  isPartial :: "bool option"

record character =
  name :: string
  display_name :: string
  description :: string
  voice_id :: string
  live2d_model_set :: "string option"

record websocket =
  socketId :: nat
  url :: string
  readyState :: ready_state

record chat_state =
  connectionStatus :: connection_status
  errorMessage :: "string option"
  apiToken :: string
  ws :: "websocket option"
  currentCharacter :: "character option"
  characters :: "character list"
  messages :: "chat_message list"
  partialTranscription :: string
  pipelineStage :: pipeline_stage
  isThinking :: bool
  voiceMode :: voice_mode
  isRecording :: bool
  isPlaying :: bool
  volumeLevel :: real
  volumeLevelRef :: real
  isDarkMode :: bool

text \<open>
  The two values read from \<open>localStorage\<close> are parameters of the initial state. Every
  hook's state below extends \<open>chat_state\<close>, so the store's actions apply to all of them;
  zustand's \<open>set\<close> is synchronous, so an action is a state update.
\<close>

definition initialState :: "string \<Rightarrow> bool \<Rightarrow> chat_state" where
  "initialState storedToken storedDarkMode =
     \<lparr>connectionStatus = Disconnected, errorMessage = None, apiToken = storedToken,
      ws = None, currentCharacter = None, characters = [], messages = [],
      partialTranscription = [], pipelineStage = Idle, isThinking = False,
      voiceMode = VoiceIdle, isRecording = False, isPlaying = False, volumeLevel = 0,
      volumeLevelRef = 0, isDarkMode = storedDarkMode\<rparr>"

definition setConnectionStatus ::
  "connection_status \<Rightarrow> 'a chat_state_scheme \<Rightarrow> 'a chat_state_scheme" where
  "setConnectionStatus status s = s\<lparr>connectionStatus := status\<rparr>"

definition setErrorMessage ::
  "string option \<Rightarrow> 'a chat_state_scheme \<Rightarrow> 'a chat_state_scheme" where
  "setErrorMessage message s = s\<lparr>errorMessage := message\<rparr>"

definition setWs :: "websocket option \<Rightarrow> 'a chat_state_scheme \<Rightarrow> 'a chat_state_scheme" where
  "setWs w s = s\<lparr>ws := w\<rparr>"

definition setCurrentCharacter ::
  "character option \<Rightarrow> 'a chat_state_scheme \<Rightarrow> 'a chat_state_scheme" where
  "setCurrentCharacter c s = s\<lparr>currentCharacter := c\<rparr>"

definition addMessage :: "chat_message \<Rightarrow> 'a chat_state_scheme \<Rightarrow> 'a chat_state_scheme" where
  "addMessage message s = s\<lparr>messages := messages s @ [message]\<rparr>"

definition setPartialTranscription ::
  "string \<Rightarrow> 'a chat_state_scheme \<Rightarrow> 'a chat_state_scheme" where
  "setPartialTranscription text s = s\<lparr>partialTranscription := text\<rparr>"

definition setPipelineStage ::
  "pipeline_stage \<Rightarrow> 'a chat_state_scheme \<Rightarrow> 'a chat_state_scheme" where
  "setPipelineStage stage s = s\<lparr>pipelineStage := stage\<rparr>"

definition setIsThinking :: "bool \<Rightarrow> 'a chat_state_scheme \<Rightarrow> 'a chat_state_scheme" where
  "setIsThinking thinking s = s\<lparr>isThinking := thinking\<rparr>"

definition setIsRecording :: "bool \<Rightarrow> 'a chat_state_scheme \<Rightarrow> 'a chat_state_scheme" where
  "setIsRecording recording s = s\<lparr>isRecording := recording\<rparr>"

definition setIsPlaying :: "bool \<Rightarrow> 'a chat_state_scheme \<Rightarrow> 'a chat_state_scheme" where
  "setIsPlaying playing s = s\<lparr>isPlaying := playing\<rparr>"

definition setVolumeLevel :: "real \<Rightarrow> 'a chat_state_scheme \<Rightarrow> 'a chat_state_scheme" where
  "setVolumeLevel level s = s\<lparr>volumeLevel := level\<rparr>"

definition clearMessages :: "'a chat_state_scheme \<Rightarrow> 'a chat_state_scheme" where
  "clearMessages s = s\<lparr>messages := [], partialTranscription := []\<rparr>"

text \<open>A call of a store action, as a value, so that the calls a handler makes can be listed.\<close>

datatype action =
    SetConnectionStatus connection_status
  | SetErrorMessage "string option"
  | SetCurrentCharacter "character option"
  | AddMessage chat_message
  | SetPartialTranscription string
  | SetPipelineStage pipeline_stage
  | SetIsThinking bool
  | SetIsRecording bool
  | SetIsPlaying bool
  | SetVolumeLevel real
  | ClearMessages

fun dispatch :: "action \<Rightarrow> 'a chat_state_scheme \<Rightarrow> 'a chat_state_scheme" where
  "dispatch (SetConnectionStatus status) = setConnectionStatus status"
| "dispatch (SetErrorMessage message) = setErrorMessage message"
| "dispatch (SetCurrentCharacter c) = setCurrentCharacter c"
| "dispatch (AddMessage message) = addMessage message"
| "dispatch (SetPartialTranscription text) = setPartialTranscription text"
| "dispatch (SetPipelineStage stage) = setPipelineStage stage"
| "dispatch (SetIsThinking thinking) = setIsThinking thinking"
| "dispatch (SetIsRecording recording) = setIsRecording recording"
| "dispatch (SetIsPlaying playing) = setIsPlaying playing"
| "dispatch (SetVolumeLevel level) = setVolumeLevel level"
| "dispatch ClearMessages = clearMessages"

section \<open>Session protocol (hooks/useWebSocket.ts)\<close>

text \<open>
  The later version of the hook (the one that waits for \<open>turn_end\<close>). An inbound frame
  after \<open>JSON.parse\<close>. The constructors are the message types the
  handler switches on; \<open>OtherMessage\<close> is any other type, and a frame that does not parse
  is \<open>None\<close>. The sample rate of an audio chunk may be absent (the player then takes its
  default).
\<close>

datatype server_message =
    ConnectedMessage string string
  | DisconnectedMessage string
  | ThinkingMessage
  | AsrStartMessage
  | AsrEndMessage string
  | LlmStartMessage
  | LlmEndMessage
  | TtsStartMessage
  | TranscriptionMessage string bool
  | AudioChunkMessage string "real option"
  | AudioEndMessage
  | ResponseMessage string string string
  | TurnEndMessage
  | AudioStreamStartedMessage
  | AgentListeningMessage
  | CharacterSwitchedMessage string string
  | HistoryClearedMessage
  | PongMessage
  | ErrorMessage string
  | OtherMessage

datatype client_message = ConnectMessage string string | PingMessageOut

definition WS_URL :: string where
  "WS_URL = ''ws://localhost:8765/ws''"

definition PING_INTERVAL :: nat where
  "PING_INTERVAL = 30000"

definition RECONNECT_DELAY :: nat where
  "RECONNECT_DELAY = 3000"

text \<open>The two user-visible messages of \<open>connect\<close>, as their UTF-8 bytes.\<close>

definition MSG_ENTER_TOKEN :: string where
  "MSG_ENTER_TOKEN = map char_of
     [232, 175, 183, 232, 190, 147, 229, 133, 165, 32, 65, 80, 73, 32, 84, 111, 107, 101,
      110 :: nat]"

definition MSG_CONNECTION_ERROR :: string where
  "MSG_CONNECTION_ERROR = map char_of
     [232, 191, 158, 230, 142, 165, 233, 148, 153, 232, 175, 175 :: nat]"

text \<open>
  The calls \<open>handleMessage\<close> makes for one parsed message. \<open>uuid\<close> and \<open>now\<close> are the
  host's \<open>crypto.randomUUID()\<close> and \<open>new Date()\<close>.
\<close>

fun handleMessage_calls :: "string \<Rightarrow> nat \<Rightarrow> server_message \<Rightarrow> action list" where
  "handleMessage_calls uuid now (ConnectedMessage ch dn) =
     [SetConnectionStatus Connected,
      SetCurrentCharacter (Some \<lparr>name = ch, display_name = dn, description = [],
                                 voice_id = [], live2d_model_set = None\<rparr>),
      SetErrorMessage None]"
| "handleMessage_calls uuid now (DisconnectedMessage m) =
     [SetConnectionStatus Disconnected, SetErrorMessage (Some m)]"
| "handleMessage_calls uuid now ThinkingMessage = [SetIsThinking True, SetPipelineStage Idle]"
| "handleMessage_calls uuid now AsrStartMessage = [SetPipelineStage Asr]"
| "handleMessage_calls uuid now (AsrEndMessage text) =
     [SetPartialTranscription [],
      AddMessage \<lparr>msg_id = uuid, role = User, content = text, contentJp = None,
                  emotion = None, timestamp = now, isPartial = None\<rparr>]"
| "handleMessage_calls uuid now LlmStartMessage = [SetPipelineStage Llm]"
| "handleMessage_calls uuid now LlmEndMessage = []"
| "handleMessage_calls uuid now TtsStartMessage = [SetPipelineStage Tts, SetIsThinking False]"
| "handleMessage_calls uuid now (TranscriptionMessage text is_partial) =
     (if is_partial then [SetPartialTranscription text] else [SetPartialTranscription []])"
| "handleMessage_calls uuid now (AudioChunkMessage b64 rate) =
     [SetPipelineStage Playing, SetIsPlaying True]"
| "handleMessage_calls uuid now AudioEndMessage = []"
| "handleMessage_calls uuid now (ResponseMessage content_cn content_jp emo) =
     [SetIsThinking False,
      AddMessage \<lparr>msg_id = uuid, role = Assistant, content = content_cn,
                  contentJp = Some content_jp, emotion = Some emo, timestamp = now,
                  isPartial = None\<rparr>]"
| "handleMessage_calls uuid now TurnEndMessage = [SetIsThinking False, SetPipelineStage Idle]"
| "handleMessage_calls uuid now AudioStreamStartedMessage = []"
| "handleMessage_calls uuid now AgentListeningMessage =
     [SetPipelineStage Idle, SetIsThinking False]"
| "handleMessage_calls uuid now (CharacterSwitchedMessage ch dn) =
     [SetCurrentCharacter (Some \<lparr>name = ch, display_name = dn, description = [],
                                 voice_id = [], live2d_model_set = None\<rparr>),
      ClearMessages]"
| "handleMessage_calls uuid now HistoryClearedMessage = [ClearMessages]"
| "handleMessage_calls uuid now PongMessage = []"
| "handleMessage_calls uuid now (ErrorMessage m) =
     [SetErrorMessage (Some m), SetIsThinking False, SetPipelineStage Idle]"
| "handleMessage_calls uuid now OtherMessage = []"

text \<open>The stages a list of calls sets with \<open>setPipelineStage\<close>, in order.\<close>

fun stage_calls :: "action list \<Rightarrow> pipeline_stage list" where
  "stage_calls [] = []"
| "stage_calls (SetPipelineStage stage # calls) = stage # stage_calls calls"
| "stage_calls (a # calls) = stage_calls calls"

text \<open>One inbound frame: the host's values for this dispatch and the parsed message.\<close>

record inbound =
  uuid :: string
  receivedAt :: nat
  parsed :: "server_message option"

definition inbound_calls :: "inbound \<Rightarrow> action list" where
  "inbound_calls ev =
     (case parsed ev of None \<Rightarrow> []
      | Some message \<Rightarrow> handleMessage_calls (uuid ev) (receivedAt ev) message)"

definition handleMessage :: "inbound \<Rightarrow> 'a chat_state_scheme \<Rightarrow> 'a chat_state_scheme" where
  "handleMessage ev s = foldl (\<lambda>st a. dispatch a st) s (inbound_calls ev)"

text \<open>Frames are dispatched one at a time, in arrival order.\<close>

definition handleMessages :: "inbound list \<Rightarrow> 'a chat_state_scheme \<Rightarrow> 'a chat_state_scheme" where
  "handleMessages evs s = foldl (\<lambda>st ev. handleMessage ev st) s evs"

text \<open>
  The hook's refs and the part of the host it acts on: the sockets it has constructed
  (each with the values its handlers close over), the pending \<open>setTimeout\<close> and
  \<open>setInterval\<close> timers, the frames sent, and the counter the host draws handles from.
  Timer handles are positive, and a ref holding a handle is tested for truthiness.
\<close>

record socket_closure =
  closureSocket :: websocket
  closureToken :: string
  closureCharacter :: string

record reconnect_timer =
  timeoutId :: nat
  timeoutDelay :: nat
  timeoutCharacter :: string

record interval_timer =
  intervalId :: nat
  intervalPeriod :: nat

record session = chat_state +
  pingIntervalRef :: "nat option"
  reconnectTimeoutRef :: "nat option"
  hostSockets :: "socket_closure list"
  hostTimeouts :: "reconnect_timer list"
  hostIntervals :: "interval_timer list"
  hostSent :: "(nat \<times> client_message) list"
  hostClosed :: "nat list"
  hostCounter :: nat

definition session_init :: "chat_state \<Rightarrow> session" where
  "session_init st = chat_state.extend st
     \<lparr>pingIntervalRef = None, reconnectTimeoutRef = None, hostSockets = [],
      hostTimeouts = [], hostIntervals = [], hostSent = [], hostClosed = [],
      hostCounter = 0\<rparr>"

definition truthy :: "nat option \<Rightarrow> bool" where
  "truthy r = (case r of None \<Rightarrow> False | Some h \<Rightarrow> h \<noteq> 0)"

definition isOpen :: "websocket option \<Rightarrow> bool" where
  "isOpen w = (case w of None \<Rightarrow> False | Some sock \<Rightarrow> readyState sock = OPEN)"

definition clearInterval_session :: "nat option \<Rightarrow> session \<Rightarrow> session" where
  "clearInterval_session r s =
     s\<lparr>hostIntervals := filter (\<lambda>t. Some (intervalId t) \<noteq> r) (hostIntervals s)\<rparr>"

definition clearTimeout :: "nat option \<Rightarrow> session \<Rightarrow> session" where
  "clearTimeout r s =
     s\<lparr>hostTimeouts := filter (\<lambda>t. Some (timeoutId t) \<noteq> r) (hostTimeouts s)\<rparr>"

definition connect :: "string \<Rightarrow> session \<Rightarrow> session" where
  "connect characterName s =
     (let currentWs = ws s;
          currentToken = apiToken s
      in if isOpen currentWs then s
         else if currentToken = [] then setErrorMessage (Some MSG_ENTER_TOKEN) s
         else
           let s1 = setConnectionStatus Connecting s;
               s2 = setErrorMessage None s1;
               newWs = \<lparr>socketId = Suc (hostCounter s2), url = WS_URL,
                        readyState = CONNECTING\<rparr>;
               s3 = s2\<lparr>hostCounter := Suc (hostCounter s2),
                       hostSockets := hostSockets s2 @
                         [\<lparr>closureSocket = newWs, closureToken = currentToken,
                           closureCharacter = characterName\<rparr>]\<rparr>
           in setWs (Some newWs) s3)"

definition onopen :: "socket_closure \<Rightarrow> session \<Rightarrow> session" where
  "onopen c s =
     (let s1 = s\<lparr>hostSent := hostSent s @
                   [(socketId (closureSocket c),
                     ConnectMessage (closureToken c) (closureCharacter c))]\<rparr>;
          h = Suc (hostCounter s1)
      in s1\<lparr>hostCounter := h,
             hostIntervals := hostIntervals s1 @
               [\<lparr>intervalId = h, intervalPeriod = PING_INTERVAL\<rparr>],
             pingIntervalRef := Some h\<rparr>)"

definition ping :: "session \<Rightarrow> session" where
  "ping s =
     (case ws s of
        None \<Rightarrow> s
      | Some sock \<Rightarrow>
          if readyState sock = OPEN
          then s\<lparr>hostSent := hostSent s @ [(socketId sock, PingMessageOut)]\<rparr> else s)"

definition onerror :: "session \<Rightarrow> session" where
  "onerror s = setErrorMessage (Some MSG_CONNECTION_ERROR) (setConnectionStatus Error s)"

definition onclose :: "string \<Rightarrow> session \<Rightarrow> session" where
  "onclose characterName s =
     (let s1 = setConnectionStatus Disconnected s;
          s2 = setWs None s1;
          s3 = (if truthy (pingIntervalRef s2)
                then (clearInterval_session (pingIntervalRef s2) s2)\<lparr>pingIntervalRef := None\<rparr>
                else s2);
          status = connectionStatus s3
      in if status = Connected
         then let h = Suc (hostCounter s3)
              in s3\<lparr>hostCounter := h,
                     hostTimeouts := hostTimeouts s3 @
                       [\<lparr>timeoutId = h, timeoutDelay = RECONNECT_DELAY,
                         timeoutCharacter = characterName\<rparr>],
                     reconnectTimeoutRef := Some h\<rparr>
         else s3)"

definition disconnect :: "session \<Rightarrow> session" where
  "disconnect s =
     (let s1 = (if truthy (reconnectTimeoutRef s)
                then (clearTimeout (reconnectTimeoutRef s) s)\<lparr>reconnectTimeoutRef := None\<rparr>
                else s);
          s2 = (if truthy (pingIntervalRef s1)
                then (clearInterval_session (pingIntervalRef s1) s1)\<lparr>pingIntervalRef := None\<rparr>
                else s1);
          s3 = (case ws s2 of
                  None \<Rightarrow> s2
                | Some sock \<Rightarrow> setWs None (s2\<lparr>hostClosed := hostClosed s2 @ [socketId sock]\<rparr>))
      in setConnectionStatus Disconnected s3)"

section \<open>Playback scheduler (hooks/useAudioPlayer.ts)\<close>

text \<open>
  The latest version of the hook (the one with \<open>streamEndedRef\<close>). The application
  passes no option callbacks, so \<open>onPlaybackStart\<close>, \<open>onPlaybackEnd\<close> and
  \<open>onVolumeChange\<close> are absent; the sampled debug logging of \<open>updateVolume\<close> touches
  no state of the hook and is left out. The output clock \<open>audioContext.currentTime\<close>
  and the analyser's waveform are read from the host: each operation that reads them
  takes the reading as an argument.
\<close>

datatype context_state = Suspended | Running | Closed

record audio_context =
  contextState :: context_state
  resumeCalls :: nat

record analyser_node =
  fftSize :: nat

record audio_source =
  sourceId :: nat
  sourceBuffer :: audio_buffer
  startTime :: real

definition endTime :: "audio_source \<Rightarrow> real" where
  "endTime src = startTime src + duration (sourceBuffer src)"

record player = chat_state +
  audioContextRef :: "audio_context option"
  isPlayingRef :: bool
  nextStartTimeRef :: real
  analyserRef :: "analyser_node option"
  animationFrameRef :: "nat option"
  scheduledSourcesRef :: "audio_source list"
  lastScheduledEndTimeRef :: real
  playbackCheckIntervalRef :: "nat option"
  streamEndedRef :: bool
  started :: "audio_source list"
  stopped :: "nat list"
  playerCounter :: nat
  consoleErrors :: nat

definition player_init :: "chat_state \<Rightarrow> player" where
  "player_init st = chat_state.extend st
     \<lparr>audioContextRef = None, isPlayingRef = False, nextStartTimeRef = 0,
      analyserRef = None, animationFrameRef = None, scheduledSourcesRef = [],
      lastScheduledEndTimeRef = 0, playbackCheckIntervalRef = None, streamEndedRef = False,
      started = [], stopped = [], playerCounter = 0, consoleErrors = 0\<rparr>"

text \<open>A new \<open>AudioContext\<close> starts suspended; \<open>resume()\<close> is a request to the host.\<close>

definition getAudioContext :: "player \<Rightarrow> player" where
  "getAudioContext s =
     (let s1 = (if audioContextRef s = None
                   \<or> map_option contextState (audioContextRef s) = Some Closed
                then s\<lparr>audioContextRef := Some \<lparr>contextState = Suspended, resumeCalls = 0\<rparr>,
                       analyserRef := Some \<lparr>fftSize = 256\<rparr>,
                       nextStartTimeRef := 0,
                       lastScheduledEndTimeRef := 0,
                       scheduledSourcesRef := []\<rparr>
                else s)
      in case audioContextRef s1 of
           None \<Rightarrow> s1
         | Some ctx \<Rightarrow>
             if contextState ctx = Suspended
             then s1\<lparr>audioContextRef := Some (ctx\<lparr>resumeCalls := Suc (resumeCalls ctx)\<rparr>)\<rparr>
             else s1)"

definition updateVolume :: "uint8 list \<Rightarrow> player \<Rightarrow> player" where
  "updateVolume timeData s =
     (if \<not> isPlayingRef s then setVolumeLevel 0 s
      else
        let sumSq = foldl (\<lambda>acc v. let sample = (real (unat v) - 128) / 128
                                    in acc + sample * sample) 0 timeData;
            rms = sqrt (sumSq / real (length timeData));
            volume = min 1 (rms * 2);
            s1 = setVolumeLevel volume (s\<lparr>volumeLevelRef := volume\<rparr>);
            h = Suc (playerCounter s1)
        in s1\<lparr>playerCounter := h, animationFrameRef := Some h\<rparr>)"

definition startVolumeMonitoring :: "uint8 list \<Rightarrow> player \<Rightarrow> player" where
  "startVolumeMonitoring timeData s =
     (case analyserRef s of None \<Rightarrow> s | Some analyser \<Rightarrow> updateVolume timeData s)"

definition stopVolumeMonitoring :: "player \<Rightarrow> player" where
  "stopVolumeMonitoring s =
     (let s1 = (if truthy (animationFrameRef s) then s\<lparr>animationFrameRef := None\<rparr> else s)
      in setVolumeLevel 0 (s1\<lparr>volumeLevelRef := 0\<rparr>))"

definition checkPlaybackEnded :: "real \<Rightarrow> player \<Rightarrow> player" where
  "checkPlaybackEnded currentTime s =
     (case audioContextRef s of
        None \<Rightarrow> s
      | Some audioContext \<Rightarrow>
          if \<not> streamEndedRef s then s
          else if isPlayingRef s \<and> currentTime \<ge> lastScheduledEndTimeRef s
          then
            let s1 = s\<lparr>scheduledSourcesRef := [], isPlayingRef := False\<rparr>;
                s2 = setIsPlaying False s1;
                s3 = setPipelineStage Idle s2;
                s4 = stopVolumeMonitoring s3
            in if truthy (playbackCheckIntervalRef s4)
               then s4\<lparr>playbackCheckIntervalRef := None\<rparr> else s4
          else s)"

definition scheduleBuffer :: "real \<Rightarrow> audio_buffer \<Rightarrow> player \<Rightarrow> player" where
  "scheduleBuffer currentTime buffer s =
     (case (audioContextRef s, analyserRef s) of
        (Some audioContext, Some analyser) \<Rightarrow>
          let now = currentTime;
              start = max (lastScheduledEndTimeRef s) now;
              source = \<lparr>sourceId = Suc (playerCounter s), sourceBuffer = buffer,
                        startTime = start\<rparr>
          in s\<lparr>playerCounter := Suc (playerCounter s),
               lastScheduledEndTimeRef := start + duration buffer,
               started := started s @ [source],
               scheduledSourcesRef := scheduledSourcesRef s @ [source]\<rparr>
      | _ \<Rightarrow> s)"



text \<open>\<open>source.onended\<close>: \<open>indexOf\<close> and \<open>splice\<close> remove the first occurrence.\<close>

definition onended :: "audio_source \<Rightarrow> player \<Rightarrow> player" where
  "onended source s = s\<lparr>scheduledSourcesRef := remove1 source (scheduledSourcesRef s)\<rparr>"

definition decodeChunk :: "string \<Rightarrow> real \<Rightarrow> js_error + audio_buffer" where
  "decodeChunk base64Data sampleRate =
     (case base64ToInt16 base64Data of
        Inl e \<Rightarrow> Inl e
      | Inr int16Data \<Rightarrow> createAudioBuffer int16Data sampleRate)"

definition addAudioChunk :: "real \<Rightarrow> uint8 list \<Rightarrow> string \<Rightarrow> real option \<Rightarrow> player \<Rightarrow> player" where
  "addAudioChunk currentTime timeData base64Data rate s =
     (let sampleRate = (case rate of None \<Rightarrow> AUDIO_CONFIG_sampleRate | Some r \<Rightarrow> r);
          s0 = getAudioContext s
      in case decodeChunk base64Data sampleRate of
           Inl error \<Rightarrow> s0\<lparr>consoleErrors := Suc (consoleErrors s0)\<rparr>
         | Inr audioBuffer \<Rightarrow>
             let s1 = scheduleBuffer currentTime audioBuffer s0
             in if \<not> isPlayingRef s1
                then
                  let s2 = setIsPlaying True (s1\<lparr>isPlayingRef := True\<rparr>);
                      s3 = startVolumeMonitoring timeData s2
                  in if \<not> truthy (playbackCheckIntervalRef s3)
                     then s3\<lparr>playerCounter := Suc (playerCounter s3),
                             playbackCheckIntervalRef := Some (Suc (playerCounter s3))\<rparr>
                     else s3
                else s1)"

definition stopPlayback :: "player \<Rightarrow> player" where
  "stopPlayback s =
     (let s1 = s\<lparr>stopped := stopped s @ map sourceId (scheduledSourcesRef s),
                 scheduledSourcesRef := []\<rparr>;
          s2 = (if truthy (playbackCheckIntervalRef s1)
                then s1\<lparr>playbackCheckIntervalRef := None\<rparr> else s1);
          s3 = s2\<lparr>lastScheduledEndTimeRef := 0, streamEndedRef := False, isPlayingRef := False\<rparr>
      in stopVolumeMonitoring (setIsPlaying False s3))"

definition handleMessage_player ::
  "real \<Rightarrow> uint8 list \<Rightarrow> server_message option \<Rightarrow> player \<Rightarrow> player" where
  "handleMessage_player currentTime timeData data s =
     (case data of
        None \<Rightarrow> s
      | Some LlmStartMessage \<Rightarrow> s\<lparr>lastScheduledEndTimeRef := 0, streamEndedRef := False\<rparr>
      | Some TtsStartMessage \<Rightarrow> getAudioContext s
      | Some (AudioChunkMessage audio_base64 audio_sample_rate) \<Rightarrow>
          addAudioChunk currentTime timeData audio_base64 audio_sample_rate s
      | Some AudioEndMessage \<Rightarrow> s\<lparr>streamEndedRef := True\<rparr>
      | Some _ \<Rightarrow> s)"

definition unmount :: "player \<Rightarrow> player" where
  "unmount s =
     (let s1 = stopPlayback s;
          s2 = (if truthy (playbackCheckIntervalRef s1)
                then s1\<lparr>playbackCheckIntervalRef := None\<rparr> else s1)
      in s2\<lparr>audioContextRef := None\<rparr>)"

text \<open>
  An execution of the scheduler is a sequence of host callbacks, each with the clock and
  waveform readings the host has at that moment. The interval and animation-frame
  callbacks run only while their handle is armed; the host moves a context it was asked
  to resume to running. Between two callbacks of the scheduler the other components may
  call any action of the shared store.
\<close>

datatype player_callback =
    Message "server_message option"
  | StoreAction action
  | PlaybackCheck
  | AnimationFrame
  | SourceEnded audio_source
  | ContextResumed
  | StopPlayback
  | Unmount

record player_event =
  clock :: real
  waveform :: "uint8 list"
  callback :: player_callback

definition player_step :: "player_event \<Rightarrow> player \<Rightarrow> player" where
  "player_step ev s =
     (case callback ev of
        Message data \<Rightarrow> handleMessage_player (clock ev) (waveform ev) data s
      | StoreAction a \<Rightarrow> dispatch a s
      | PlaybackCheck \<Rightarrow>
          if truthy (playbackCheckIntervalRef s) then checkPlaybackEnded (clock ev) s else s
      | AnimationFrame \<Rightarrow>
          if truthy (animationFrameRef s) then updateVolume (waveform ev) s else s
      | SourceEnded source \<Rightarrow> onended source s
      | ContextResumed \<Rightarrow>
          (case audioContextRef s of
             None \<Rightarrow> s
           | Some ctx \<Rightarrow>
               if contextState ctx = Suspended \<and> 0 < resumeCalls ctx
               then s\<lparr>audioContextRef := Some (ctx\<lparr>contextState := Running\<rparr>)\<rparr> else s)
      | StopPlayback \<Rightarrow> stopPlayback s
      | Unmount \<Rightarrow> unmount s)"

definition player_run :: "player_event list \<Rightarrow> player \<Rightarrow> player" where
  "player_run evs s = foldl (\<lambda>st ev. player_step ev st) s evs"

text \<open>
  What holds of the refs between callbacks: the context ref never holds a closed context,
  while there is no context the scheduling baseline is zero and no source is tracked,
  and the baseline \<open>lastScheduledEndTimeRef\<close> is either zero (initially, and after the
  reset at a new turn or a stop) or the end time of the source started last.
\<close>

definition scheduler_inv :: "player \<Rightarrow> bool" where
  "scheduler_inv s =
     (nextStartTimeRef s = 0
      \<and> map_option contextState (audioContextRef s) \<noteq> Some Closed
      \<and> (if audioContextRef s = None
           then lastScheduledEndTimeRef s = 0 \<and> scheduledSourcesRef s = []
           else analyserRef s \<noteq> None)
      \<and> (lastScheduledEndTimeRef s = 0
           \<or> started s \<noteq> [] \<and> lastScheduledEndTimeRef s = endTime (last (started s))))"

text \<open>
  The drain transition of \<open>checkPlaybackEnded\<close>: the scheduler was playing before the
  call and is idle after it.
\<close>

definition drained :: "player \<Rightarrow> player \<Rightarrow> bool" where
  "drained before after = (isPlayingRef before \<and> \<not> isPlayingRef after)"

text \<open>The test \<open>checkPlaybackEnded\<close> makes, past its two early returns.\<close>

definition drain_due :: "real \<Rightarrow> player \<Rightarrow> bool" where
  "drain_due t s = (audioContextRef s \<noteq> None \<and> streamEndedRef s \<and> isPlayingRef s
                    \<and> lastScheduledEndTimeRef s \<le> t)"

section \<open>Capture pipeline (hooks/useAudioRecorder.ts)\<close>

text \<open>
  The hook's refs, its two \<open>useState\<close> flags, and the host it acts on: the chunks handed
  to \<open>onChunk\<close>, the media streams whose tracks were stopped, and the handle counter.
  The capture context is kept by its \<open>sampleRate\<close>, the one value the hook reads from it.
  The option \<open>onChunk\<close> is present in the streaming modes and absent in batch mode;
  \<open>onVolumeChange\<close> is not passed by the application.
\<close>

datatype capture_error = BrowserUnsupported | NotAllowedError | OtherCaptureError

datatype media_request = NoMediaDevices | Rejected capture_error | Granted real

record recorder = chat_state +
  isSupported :: bool
  permissionDenied :: bool
  streamRef :: "nat option"
  captureContextRef :: "real option"
  processorRef :: "nat option"
  sourceRef :: "nat option"
  chunksRef :: "int16 list list"
  isRecordingRef :: bool
  chunkIntervalRef :: "nat option"
  accumulatedSamplesRef :: "real list list"
  emitted :: "string list"
  stoppedStreams :: "nat list"
  recorderCounter :: nat

definition recorder_init :: "chat_state \<Rightarrow> recorder" where
  "recorder_init st = chat_state.extend st
     \<lparr>isSupported = True, permissionDenied = False, streamRef = None,
      captureContextRef = None, processorRef = None, sourceRef = None, chunksRef = [],
      isRecordingRef = False, chunkIntervalRef = None, accumulatedSamplesRef = [],
      emitted = [], stoppedStreams = [], recorderCounter = 0\<rparr>"

definition startRecording ::
  "bool \<Rightarrow> media_request \<Rightarrow> recorder \<Rightarrow> capture_error option \<times> recorder" where
  "startRecording onChunk request s =
     (case request of
        NoMediaDevices \<Rightarrow> (Some BrowserUnsupported, s\<lparr>isSupported := False\<rparr>)
      | Rejected e \<Rightarrow>
          (Some e, if e = NotAllowedError then s\<lparr>permissionDenied := True\<rparr> else s)
      | Granted contextRate \<Rightarrow>
          let h = recorderCounter s;
              s1 = s\<lparr>streamRef := Some (h + 1), permissionDenied := False,
                     captureContextRef := Some contextRate, sourceRef := Some (h + 2),
                     processorRef := Some (h + 3), chunksRef := [],
                     accumulatedSamplesRef := [], isRecordingRef := True,
                     recorderCounter := h + 3\<rparr>;
              s2 = (if onChunk
                    then s1\<lparr>chunkIntervalRef := Some (h + 4), recorderCounter := h + 4\<rparr>
                    else s1)
          in (None, setIsRecording True s2))"

text \<open>
  \<open>processor.onaudioprocess\<close>; \<open>contextRate\<close> is the \<open>sampleRate\<close> of the context the
  handler closes over. An exception of \<open>resampleAudio\<close> leaves the handler after the
  volume has been set.
\<close>

definition onaudioprocess :: "real \<Rightarrow> real list \<Rightarrow> recorder \<Rightarrow> recorder" where
  "onaudioprocess contextRate inputData s =
     (if \<not> isRecordingRef s then s
      else
        let float32Data = inputData;
            rms = calculateRMS float32Data;
            volume = normalizeVolume rms;
            s1 = setVolumeLevel volume s
        in case resampleAudio float32Data contextRate AUDIO_CONFIG_sampleRate of
             Inl e \<Rightarrow> s1
           | Inr resampled \<Rightarrow>
               let s2 = s1\<lparr>accumulatedSamplesRef := accumulatedSamplesRef s1 @ [resampled]\<rparr>;
                   int16Data = float32ToInt16 resampled
               in s2\<lparr>chunksRef := chunksRef s2 @ [int16Data]\<rparr>)"

text \<open>The callback of the chunk interval that \<open>startRecording\<close> arms when \<open>onChunk\<close> is given.\<close>

definition chunkInterval :: "recorder \<Rightarrow> recorder" where
  "chunkInterval s =
     (if accumulatedSamplesRef s \<noteq> []
      then
        let merged = concat (accumulatedSamplesRef s);
            int16Data = float32ToInt16 merged;
            base64Data = int16ToBase64 int16Data
        in s\<lparr>emitted := emitted s @ [base64Data], accumulatedSamplesRef := []\<rparr>
      else s)"

text \<open>
  The first half of \<open>stopRecording\<close> and of \<open>cancelRecording\<close>, which is the same code
  in both: capture is halted, the interval cleared, the audio graph and the media
  stream released.
\<close>

definition teardown :: "recorder \<Rightarrow> recorder" where
  "teardown s =
     (let s1 = s\<lparr>isRecordingRef := False\<rparr>;
          s2 = (if truthy (chunkIntervalRef s1) then s1\<lparr>chunkIntervalRef := None\<rparr> else s1);
          s3 = (if processorRef s2 \<noteq> None then s2\<lparr>processorRef := None\<rparr> else s2);
          s4 = (if sourceRef s3 \<noteq> None then s3\<lparr>sourceRef := None\<rparr> else s3);
          s5 = (if captureContextRef s4 \<noteq> None then s4\<lparr>captureContextRef := None\<rparr> else s4)
      in case streamRef s5 of
           None \<Rightarrow> s5
         | Some stream \<Rightarrow> s5\<lparr>stoppedStreams := stoppedStreams s5 @ [stream],
                              streamRef := None\<rparr>)"

definition stopRecording :: "recorder \<Rightarrow> string \<times> recorder" where
  "stopRecording s =
     (let s1 = teardown s;
          mergedData = concat (chunksRef s1);
          s2 = s1\<lparr>chunksRef := [], accumulatedSamplesRef := []\<rparr>;
          s3 = setVolumeLevel 0 s2;
          s4 = setIsRecording False s3
      in (int16ToBase64 mergedData, s4))"

definition cancelRecording :: "recorder \<Rightarrow> recorder" where
  "cancelRecording s =
     (let s1 = teardown s;
          s2 = s1\<lparr>chunksRef := [], accumulatedSamplesRef := []\<rparr>;
          s3 = setVolumeLevel 0 s2
      in setIsRecording False s3)"

text \<open>
  A recording session between \<open>startRecording\<close> and \<open>stopRecording\<close>: audio frames from
  the processor, interleaved with firings of the chunk interval while it is armed.
\<close>

datatype capture_callback = AudioProcess "real list" | ChunkInterval

definition recorder_step :: "real \<Rightarrow> capture_callback \<Rightarrow> recorder \<Rightarrow> recorder" where
  "recorder_step contextRate cb s =
     (case cb of
        AudioProcess inputData \<Rightarrow> onaudioprocess contextRate inputData s
      | ChunkInterval \<Rightarrow> if truthy (chunkIntervalRef s) then chunkInterval s else s)"

definition recorder_run :: "real \<Rightarrow> capture_callback list \<Rightarrow> recorder \<Rightarrow> recorder" where
  "recorder_run contextRate cbs s = foldl (\<lambda>st cb. recorder_step contextRate cb st) s cbs"

fun frames :: "capture_callback list \<Rightarrow> real list list" where
  "frames [] = []"
| "frames (AudioProcess inputData # cbs) = inputData # frames cbs"
| "frames (ChunkInterval # cbs) = frames cbs"

text \<open>A frame after resampling to the target rate (empty where \<open>resampleAudio\<close> throws).\<close>

definition resampledFrame :: "real \<Rightarrow> real list \<Rightarrow> real list" where
  "resampledFrame contextRate inputData =
     (case resampleAudio inputData contextRate AUDIO_CONFIG_sampleRate of
        Inl e \<Rightarrow> [] | Inr resampled \<Rightarrow> resampled)"

section \<open>Properties of the codec\<close>

subsection \<open>Base64 and the byte views\<close>


lemma unat_uint8_less: "unat (a :: uint8) < 256"
  using unsigned_less [of a, where ?'a = nat] by simp

lemma split64: "(m::nat) div 64 * 64 + m mod 64 = m"
  by simp

lemma join1: "(n div 4 * 64 + n mod 4 * 16) div 16 = (n::nat)"
proof -
  have h: "q * 64 + r * 16 = 16 * (q * 4 + r)" for q r :: nat by simp
  have "n div 4 * 64 + n mod 4 * 16 = 16 * n"
    using h [of "n div 4" "n mod 4"] by (simp only: div_mult_mod_eq)
  then show ?thesis by simp
qed

lemma join2: "((n div 1024 * 64 + n div 16 mod 64) * 64 + n mod 16 * 4) div 4 = (n::nat)"
proof -
  have h: "q * 64 + r * 4 = 4 * (q * 16 + r)" for q r :: nat by simp
  have "n div 1024 = n div 16 div 64" by (simp add: div_mult2_eq [symmetric])
  then have "n div 1024 * 64 + n div 16 mod 64 = n div 16" by (simp only: split64)
  then have "(n div 1024 * 64 + n div 16 mod 64) * 64 + n mod 16 * 4 = n div 16 * 64 + n mod 16 * 4"
    by (simp only:)
  also have "\<dots> = 4 * n"
    using h [of "n div 16" "n mod 16"] by (simp only: div_mult_mod_eq)
  finally show ?thesis by simp
qed

lemma join3:
  "((n div 262144 * 64 + n div 4096 mod 64) * 64 + n div 64 mod 64) * 64 + n mod 64 = (n::nat)"
proof -
  have "n div 262144 = n div 4096 div 64" by (simp add: div_mult2_eq [symmetric])
  then have "n div 262144 * 64 + n div 4096 mod 64 = n div 4096" by (simp only: split64)
  moreover have "n div 4096 = n div 64 div 64" by (simp add: div_mult2_eq [symmetric])
  ultimately have "(n div 262144 * 64 + n div 4096 mod 64) * 64 + n div 64 mod 64 = n div 64"
    by (simp only: split64)
  then show ?thesis by (simp only: split64)
qed

lemma bytes2: 
  assumes "a < 256" "b < 256"
  shows "(a * 256 + b) div 256 = (a::nat)" "(a * 256 + b) mod 256 = b"
  using assms by simp_all

lemma bytes3: 
  assumes "a < 256" "b < 256" "c < 256"
  shows "(a * 65536 + b * 256 + c) div 65536 = (a::nat)" 
    "(a * 65536 + b * 256 + c) div 256 mod 256 = b"
    "(a * 65536 + b * 256 + c) mod 256 = c"
proof -
  have e: "a * 65536 + b * 256 + c = (a * 256 + b) * 256 + c" by simp
  have d: "(a * 65536 + b * 256 + c) div 256 = a * 256 + b"
    unfolding e using assms by simp
  show "(a * 65536 + b * 256 + c) div 256 mod 256 = b" using d assms by simp
  have "(a * 65536 + b * 256 + c) div 65536 = (a * 65536 + b * 256 + c) div 256 div 256"
    by (simp add: div_mult2_eq [symmetric])
  then show "(a * 65536 + b * 256 + c) div 65536 = a" using d assms by simp
  have e2: "a * 65536 + b * 256 + c = c + (a * 256 + b) * 256" by simp
  have "(c + (a * 256 + b) * 256) mod 256 = c mod 256" by (rule mod_mult_self1)
  then show "(a * 65536 + b * 256 + c) mod 256 = c"
    unfolding e2 using assms by (simp only: mod_less)
qed

lemma octets_sextets: "octets (sextets bs) = bs"
proof (induction bs rule: sextets.induct)
  case 1
  show ?case by simp
next
  case (2 a)
  show ?case by (simp only: sextets.simps octets.simps Let_def join1 of_nat_unat) simp
next
  case (3 a b)
  show ?case
    by (simp only: sextets.simps octets.simps Let_def join2
          bytes2 [OF unat_uint8_less unat_uint8_less]) simp
next
  case (4 a b c bs)
  then show ?case 
    by (simp only: sextets.simps octets.simps Let_def join3 append_Cons append_Nil
          bytes3 [OF unat_uint8_less unat_uint8_less unat_uint8_less]) simp
qed


lemma sextets_less: "i \<in> set (sextets bs) \<Longrightarrow> i < 64"
proof (induction bs rule: sextets.induct)
  case (2 a)
  have "unat a div 4 < 64" using unat_uint8_less [of a] by simp
  moreover have "unat a mod 4 * 16 < 64" 
    using mod_less_divisor [of 4 "unat a"] by linarith
  ultimately show ?case using 2 by (auto simp: Let_def)
next
  case (3 a b)
  have "unat a * 256 + unat b < 65536" 
    using unat_uint8_less [of a] unat_uint8_less [of b] by simp
  then have "(unat a * 256 + unat b) div 1024 < 64" by simp
  moreover have "(unat a * 256 + unat b) mod 16 * 4 < 64"
    using mod_less_divisor [of 16 "unat a * 256 + unat b"] by linarith
  ultimately show ?case using 3 by (auto simp: Let_def)
next
  case (4 a b c bs)
  have "unat a * 65536 + unat b * 256 + unat c < 16777216" 
    using unat_uint8_less [of a] unat_uint8_less [of b] unat_uint8_less [of c] by simp
  then have "(unat a * 65536 + unat b * 256 + unat c) div 262144 < 64" by simp
  then show ?case using 4 by (auto simp: Let_def)
qed simp

lemma length_sextets: "length (sextets bs) = (4 * length bs + 2) div 3"
  by (induction bs rule: sextets.induct) (simp_all add: Let_def)


lemma distinct_b64chars: "distinct b64chars"
  by (simp add: b64chars_def)

lemma length_b64chars: "length b64chars = 64"
  by (simp add: b64chars_def)

lemma index_distinct:
  "distinct xs \<Longrightarrow> i < length xs \<Longrightarrow> length (takeWhile (\<lambda>d. d \<noteq> xs ! i) xs) = i"
  by (induction xs arbitrary: i) (auto simp: nth_Cons split: nat.splits)

lemma b64index_nth: "i < 64 \<Longrightarrow> b64index (b64chars ! i) = Some i"
  using index_distinct [OF distinct_b64chars, of i]
  by (simp add: b64index_def length_b64chars)

lemma b64chars_plain: "c \<in> set b64chars \<Longrightarrow> \<not> ascii_whitespace c \<and> c \<noteq> CHR ''=''"
  by (auto simp: b64chars_def ascii_whitespace_def)

lemma body_in_alphabet: "c \<in> set (body bs) \<Longrightarrow> c \<in> set b64chars"
  using sextets_less [of _ bs] by (auto simp: body_def length_b64chars)

lemma decode_body: "map (\<lambda>c. the (b64index c)) (body bs) = sextets bs"
proof -
  have "map (\<lambda>i. the (b64index (b64chars ! i))) (sextets bs) = map (\<lambda>i. i) (sextets bs)"
    by (rule map_cong) (simp_all add: b64index_nth sextets_less)
  then show ?thesis by (simp add: body_def comp_def)
qed

lemma body_valid: "\<not> list_ex (\<lambda>c. b64index c = None) (body bs)"
  using body_in_alphabet [of _ bs] by (auto simp: list_ex_iff b64index_def)

lemma last_body: "body bs \<noteq> [] \<Longrightarrow> last (body bs) \<noteq> CHR ''=''"
  using body_in_alphabet [of "last (body bs)" bs] b64chars_plain [of "last (body bs)"]
  by auto

lemma filter_btoa: "filter (\<lambda>c. \<not> ascii_whitespace c) (btoa bs) = btoa bs"
proof -
  have "\<not> ascii_whitespace c" if "c \<in> set (btoa bs)" for c
    using that body_in_alphabet [of c bs] b64chars_plain [of c]
    by (auto simp: btoa_def body_def [symmetric] ascii_whitespace_def)
  then show ?thesis by (simp add: filter_id_conv)
qed

lemma strip_btoa: "strip_padding (btoa bs) = body bs \<and> length (body bs) mod 4 \<noteq> 1"
proof -
  let ?n = "length bs"
  have len: "length (body bs) = (4 * ?n + 2) div 3"
    by (simp add: body_def length_sextets)
  have b: "btoa bs = body bs @ replicate ((3 - ?n mod 3) mod 3) (CHR ''='')"
    by (simp add: btoa_def body_def)
  consider (r0) "?n mod 3 = 0" | (r1) "?n mod 3 = 1" | (r2) "?n mod 3 = 2"
    by linarith
  then show ?thesis
  proof cases
    case r0
    then obtain k where k: "?n = 3 * k" by (auto simp: mod_eq_0_iff_dvd)
    have l: "length (body bs) = 4 * k" using len k by simp
    have m: "length (body bs) mod 4 \<noteq> 1" unfolding l by presburger
    have e: "btoa bs = body bs" using b r0 by simp
    have "strip_padding (body bs) = body bs"
      using last_body [of bs] by (auto simp: strip_padding_def)
    then show ?thesis using m e by simp
  next
    case r1
    then obtain k where k: "?n = 3 * k + 1" by (metis mult_div_mod_eq)
    have l: "length (body bs) = 4 * k + 2" using len k by simp
    then have ne: "body bs \<noteq> []" by auto
    have m: "length (body bs) mod 4 \<noteq> 1" "(length (body bs) + 2) mod 4 = 0"
      unfolding l by presburger+
    have e: "btoa bs = body bs @ [CHR ''='', CHR ''='']" 
      using b r1 by (simp add: numeral_2_eq_2)
    have "strip_padding (body bs @ [CHR ''='', CHR ''='']) = body bs"
      using m(2) by (simp add: strip_padding_def butlast_append)
    then show ?thesis using m(1) e by simp
  next
    case r2
    then obtain k where k: "?n = 3 * k + 2" by (metis mult_div_mod_eq)
    have l: "length (body bs) = 4 * k + 3" using len k by simp
    then have ne: "body bs \<noteq> []" by auto
    have m: "length (body bs) mod 4 \<noteq> 1" "(length (body bs) + 1) mod 4 = 0"
      unfolding l by presburger+
    have e: "btoa bs = body bs @ [CHR ''='']" using b r2 by simp
    have "strip_padding (body bs @ [CHR ''='']) = body bs"
      using m(2) ne last_body [of bs] by (simp add: strip_padding_def)
    then show ?thesis using m(1) e by simp
  qed
qed

lemma atob_btoa: "atob (btoa bs) = Some bs"
  using strip_btoa [of bs] body_valid [of bs]
  by (simp add: atob_def filter_btoa decode_body octets_sextets)

lemma int16_bytes_roundtrip:
  "ucast (ucast w :: uint8) OR push_bit 8 (ucast (ucast (drop_bit 8 w) :: uint8)) = (w :: int16)"
  by (rule bit_word_eqI) (auto simp add: bit_simps)

lemma int16_view_roundtrip: "int16_view (uint8_view arr) = Some arr"
  by (induction arr) (simp_all add: uint8_view_def int16_bytes_def int16_bytes_roundtrip)

text \<open>
  Claim C10. For every Int16Array \<open>x\<close>, decoding its transport encoding gives \<open>x\<close> back,
  element for element: \<open>base64ToInt16 (int16ToBase64 x)\<close> returns \<open>x\<close> and raises nothing.
\<close>

theorem base64_roundtrip: "base64ToInt16 (int16ToBase64 x) = Inr x"
  by (simp add: base64ToInt16_def int16ToBase64_def atob_btoa int16_view_roundtrip)

subsection \<open>Quantisation\<close>


lemma sint_int16_of_int:
  "- 32768 \<le> k \<Longrightarrow> k \<le> 32767 \<Longrightarrow> sint (word_of_int k :: int16) = k"
  by (simp add: sint_sbintrunc' signed_take_bit_int_eq_self)

lemma clampSample_range: "- 1 \<le> clampSample x \<and> clampSample x \<le> 1"
  by (simp add: clampSample_def)

lemma roundtrip_negative:
  assumes "- 1 \<le> s" "s < 0"
  shows "\<bar>real_of_int (sint (toInt16 (s * 32768))) / 32768 - s\<bar> < 1 / 32768"
proof -
  let ?t = "s * 32768"
  have t: "- 32768 \<le> ?t" "?t < 0" using assms by simp_all
  have lo: "- 32768 \<le> \<lceil>?t\<rceil>" using t(1) by (simp add: le_ceiling_iff)
  have hi: "\<lceil>?t\<rceil> \<le> 0" using t(2) by (simp add: ceiling_le_iff)
  have k: "sint (toInt16 ?t) = \<lceil>?t\<rceil>"
    using t(2) lo hi by (simp add: toInt16_def sint_int16_of_int)
  have a: "?t \<le> real_of_int \<lceil>?t\<rceil>" "real_of_int \<lceil>?t\<rceil> < ?t + 1" by linarith+
  have e: "real_of_int \<lceil>?t\<rceil> / 32768 - s = (real_of_int \<lceil>?t\<rceil> - ?t) / 32768" 
    by (simp add: field_simps)
  have "0 \<le> (real_of_int \<lceil>?t\<rceil> - ?t) / 32768" "(real_of_int \<lceil>?t\<rceil> - ?t) / 32768 < 1 / 32768"
    using a by (simp_all add: divide_strict_right_mono)
  then show ?thesis unfolding k e by linarith
qed

lemma roundtrip_nonnegative:
  assumes "0 \<le> s" "s \<le> 1"
  shows "\<bar>real_of_int (sint (toInt16 (s * 32767))) / 32768 - s\<bar> < 2 / 32768"
proof -
  let ?t = "s * 32767"
  have t: "0 \<le> ?t" "?t \<le> 32767" using assms by simp_all
  have lo: "0 \<le> \<lfloor>?t\<rfloor>" using t(1) by simp
  have hi: "\<lfloor>?t\<rfloor> \<le> 32767" using t(2) by (simp add: floor_le_iff)
  have k: "sint (toInt16 ?t) = \<lfloor>?t\<rfloor>"
    using t(1) lo hi by (simp add: toInt16_def sint_int16_of_int)
  have a: "real_of_int \<lfloor>?t\<rfloor> \<le> ?t" "?t < real_of_int \<lfloor>?t\<rfloor> + 1" by linarith+
  have e: "real_of_int \<lfloor>?t\<rfloor> / 32768 - s = (real_of_int \<lfloor>?t\<rfloor> - ?t - s) / 32768" 
    by (simp add: field_simps)
  have b: "- 2 < real_of_int \<lfloor>?t\<rfloor> - ?t - s" "real_of_int \<lfloor>?t\<rfloor> - ?t - s \<le> 0"
    using a assms by linarith+
  have "(- 2) / 32768 < (real_of_int \<lfloor>?t\<rfloor> - ?t - s) / 32768"
    using b(1) by (rule divide_strict_right_mono) simp
  moreover have "(real_of_int \<lfloor>?t\<rfloor> - ?t - s) / 32768 \<le> 0"
    using b(2) by (simp add: divide_nonpos_pos)
  ultimately show ?thesis unfolding k e by linarith
qed

text \<open>
  Claim C6, as amended. For every sample array, converting with \<open>float32ToInt16\<close> and
  back with \<open>int16ToFloat32\<close> yields, for each sample, a value within \<open>1/32768\<close> of
  the clamped sample when the clamped sample is negative (scale \<open>0x8000\<close> both ways), and
  within \<open>2/32768\<close> of it when the clamped sample is non-negative (scale \<open>0x7FFF\<close> one
  way, \<open>0x8000\<close> the other).
\<close>

theorem float_roundtrip_error:
  assumes "i < length xs"
  shows "(clampSample (xs ! i) < 0 \<longrightarrow>
           \<bar>int16ToFloat32 (float32ToInt16 xs) ! i - clampSample (xs ! i)\<bar> < 1 / 32768)
       \<and> (0 \<le> clampSample (xs ! i) \<longrightarrow>
           \<bar>int16ToFloat32 (float32ToInt16 xs) ! i - clampSample (xs ! i)\<bar> < 2 / 32768)"
proof -
  let ?s = "clampSample (xs ! i)"
  have y: "int16ToFloat32 (float32ToInt16 xs) ! i
           = real_of_int (sint (toInt16 (if ?s < 0 then ?s * 32768 else ?s * 32767))) / 32768"
    using assms
    by (simp only: int16ToFloat32_def float32ToInt16_def nth_map length_map Let_def)
  show ?thesis
  proof (cases "?s < 0")
    case True
    have "\<bar>real_of_int (sint (toInt16 (?s * 32768))) / 32768 - ?s\<bar> < 1 / 32768"
      using roundtrip_negative [of ?s] clampSample_range [of "xs ! i"] True by blast
    then show ?thesis unfolding y using True by auto
  next
    case False
    have "\<bar>real_of_int (sint (toInt16 (?s * 32767))) / 32768 - ?s\<bar> < 2 / 32768"
      using roundtrip_nonnegative [of ?s] clampSample_range [of "xs ! i"] False by simp
    then show ?thesis unfolding y using False by auto
  qed
qed

text \<open>
  Both bounds on a two-sample array: index 0 holds a negative sample, index 1 a
  non-negative one.
\<close>

theorem float_roundtrip_error_witness:
  "(0::nat) < length [- 1 / 3, 65535 / 65536 :: real]
   \<and> clampSample ([- 1 / 3, 65535 / 65536] ! 0) < 0
   \<and> \<bar>int16ToFloat32 (float32ToInt16 [- 1 / 3, 65535 / 65536]) ! 0 - clampSample (- 1 / 3)\<bar>
       < 1 / 32768
   \<and> (1::nat) < length [- 1 / 3, 65535 / 65536 :: real]
   \<and> 0 \<le> clampSample ([- 1 / 3, 65535 / 65536] ! 1)
   \<and> \<bar>int16ToFloat32 (float32ToInt16 [- 1 / 3, 65535 / 65536]) ! 1
        - clampSample (65535 / 65536)\<bar> < 2 / 32768"
  using float_roundtrip_error [of 0 "[- 1 / 3, 65535 / 65536]"]
    float_roundtrip_error [of 1 "[- 1 / 3, 65535 / 65536]"]
  by (simp add: clampSample_def)

text \<open>
  The bound \<open>1/32768\<close> of claim C6 as stated fails for the sample \<open>65535/65536\<close>, a
  value a \<open>Float32Array\<close> holds exactly: it becomes the integer 32766 and comes back as
  \<open>32766/32768\<close>, which is \<open>3/65536\<close> away.
\<close>

theorem float_roundtrip_counterexample:
  "\<bar>int16ToFloat32 (float32ToInt16 [65535 / 65536]) ! 0 - clampSample (65535 / 65536)\<bar>
     > 1 / 32768"
  by (simp add: int16ToFloat32_def float32ToInt16_def clampSample_def toInt16_def)

subsection \<open>Rounding\<close>

lemma roundTiesToEven_bounds:
  "real_of_int (roundTiesToEven z) \<le> z + 1 / 2" "z - 1 / 2 \<le> real_of_int (roundTiesToEven z)"
  unfolding roundTiesToEven_def Let_def by (auto; linarith)+

lemma roundTiesToEven_sign:
  "0 \<le> z \<Longrightarrow> 0 \<le> roundTiesToEven z" "z \<le> 0 \<Longrightarrow> roundTiesToEven z \<le> 0"
proof -
  show "0 \<le> z \<Longrightarrow> 0 \<le> roundTiesToEven z"
    unfolding roundTiesToEven_def Let_def by (auto simp: zero_le_floor) 
  assume z: "z \<le> 0"
  show "roundTiesToEven z \<le> 0"
  proof (cases "z = 0")
    case True
    then show ?thesis by (simp add: roundTiesToEven_def)
  next
    case False
    then have "\<lfloor>z\<rfloor> \<le> - 1" using z by (simp add: floor_le_iff)
    then show ?thesis unfolding roundTiesToEven_def Let_def by auto
  qed
qed

lemma binade_range: "emin \<le> e \<Longrightarrow> emin \<le> binade emin e x \<and> binade emin e x \<le> e"
proof (induction emin e x rule: binade.induct)
  case (1 emin e x)
  show ?case
  proof (cases "e \<le> emin \<or> 2 powi e \<le> x")
    case True
    then have "binade emin e x = e" by (subst binade.simps) simp
    then show ?thesis using "1.prems" by simp
  next
    case False
    then have "binade emin e x = binade emin (e - 1) x" by (subst binade.simps) simp
    moreover have "emin \<le> e - 1" using False by simp
    ultimately show ?thesis using "1.IH" [OF False] by simp
  qed
qed

lemma binade_below: "emin < binade emin e x \<Longrightarrow> 2 powi (binade emin e x) \<le> x"
proof (induction emin e x rule: binade.induct)
  case (1 emin e x)
  show ?case
  proof (cases "e \<le> emin \<or> 2 powi e \<le> x")
    case True
    then have b: "binade emin e x = e" by (subst binade.simps) simp
    then have "\<not> e \<le> emin" using "1.prems" by simp
    then show ?thesis using True b by simp
  next
    case False
    then have b: "binade emin e x = binade emin (e - 1) x" by (subst binade.simps) simp
    show ?thesis using "1.IH" [OF False] "1.prems" unfolding b by simp
  qed
qed

lemma roundBinary_error:
  assumes "emin \<le> emax"
  shows "\<bar>roundBinary p emin emax x - x\<bar> \<le> \<bar>x\<bar> * 2 powi (- p) + 2 powi (emin - p)"
proof -
  define e where "e = binade emin emax \<bar>x\<bar>"
  define q :: real where "q = 2 powi (e - p + 1)"
  have q: "0 < q" by (simp add: q_def)
  have rb: "roundBinary p emin emax x = real_of_int (roundTiesToEven (x / q)) * q"
    by (simp add: roundBinary_def Let_def e_def q_def)
  have "\<bar>real_of_int (roundTiesToEven (x / q)) - x / q\<bar> \<le> 1 / 2"
    using roundTiesToEven_bounds [of "x / q"] by linarith
  then have "\<bar>real_of_int (roundTiesToEven (x / q)) - x / q\<bar> * q \<le> 1 / 2 * q"
    using q by (simp add: mult_right_mono)
  moreover have "\<bar>real_of_int (roundTiesToEven (x / q)) - x / q\<bar> * q
                 = \<bar>real_of_int (roundTiesToEven (x / q)) * q - x\<bar>"
  proof -
    have "(real_of_int (roundTiesToEven (x / q)) - x / q) * q
          = real_of_int (roundTiesToEven (x / q)) * q - x"
      using q by (simp add: field_simps)
    moreover have "\<bar>real_of_int (roundTiesToEven (x / q)) - x / q\<bar> * q
          = \<bar>(real_of_int (roundTiesToEven (x / q)) - x / q) * q\<bar>"
      using q by (simp add: abs_mult)
    ultimately show ?thesis by simp
  qed
  ultimately have err: "\<bar>roundBinary p emin emax x - x\<bar> \<le> q / 2" unfolding rb by simp
  have h: "q / 2 = 2 powi (e - p)"
    by (simp add: q_def power_int_add)
  have "2 powi (e - p) \<le> \<bar>x\<bar> * 2 powi (- p) + 2 powi (emin - p)"
  proof (cases "emin < e")
    case True
    then have "2 powi e \<le> \<bar>x\<bar>" unfolding e_def by (rule binade_below)
    then have "2 powi e * 2 powi (- p) \<le> \<bar>x\<bar> * (2 powi (- p) :: real)"
      by (simp add: mult_right_mono)
    moreover have "2 powi (e - p) = 2 powi e * (2 powi (- p) :: real)"
      by (simp add: power_int_add [symmetric])
    moreover have "0 \<le> (2 powi (emin - p) :: real)" by simp
    ultimately show ?thesis by linarith
  next
    case False
    then have "e = emin" using binade_range [OF assms, of "\<bar>x\<bar>"] by (simp add: e_def)
    moreover have "0 \<le> \<bar>x\<bar> * (2 powi (- p) :: real)" by simp
    ultimately show ?thesis by simp
  qed
  then show ?thesis using err h by linarith
qed

lemma roundBinary_sign:
  "0 \<le> x \<Longrightarrow> 0 \<le> roundBinary p emin emax x" "x \<le> 0 \<Longrightarrow> roundBinary p emin emax x \<le> 0"
proof -
  have q: "0 < (2 powi (binade emin emax \<bar>x\<bar> - p + 1) :: real)" by simp
  show "0 \<le> x \<Longrightarrow> 0 \<le> roundBinary p emin emax x"
    using q roundTiesToEven_sign(1) [of "x / 2 powi (binade emin emax \<bar>x\<bar> - p + 1)"]
    by (simp add: roundBinary_def Let_def)
  show "x \<le> 0 \<Longrightarrow> roundBinary p emin emax x \<le> 0"
    using q roundTiesToEven_sign(2) [of "x / 2 powi (binade emin emax \<bar>x\<bar> - p + 1)"]
    by (simp add: roundBinary_def Let_def divide_nonpos_pos mult_nonpos_nonneg)
qed

lemma toDouble_error:
  "\<bar>toDouble x - x\<bar> \<le> \<bar>x\<bar> / 2 ^ 53 + 1 / 2 ^ 100"
proof -
  have "\<bar>toDouble x - x\<bar> \<le> \<bar>x\<bar> * 2 powi (- 53) + 2 powi (- 1022 - 53)"
    unfolding toDouble_def by (rule roundBinary_error) simp
  moreover have "(2 powi (- 1022 - 53) :: real) \<le> 2 powi (- 100)"
    by (rule power_int_increasing) simp_all
  moreover have "(2 powi (- 100) :: real) = 1 / 2 ^ 100" "(2 powi (- 53) :: real) = 1 / 2 ^ 53"
    by (simp_all add: power_int_minus field_simps)
  ultimately show ?thesis by simp
qed

lemma toDouble_sign: "0 \<le> x \<Longrightarrow> 0 \<le> toDouble x" "x \<le> 0 \<Longrightarrow> toDouble x \<le> 0"
  by (simp_all add: toDouble_def roundBinary_sign)

lemma powi_less_imp_less: "(2::real) powi a < 2 powi b \<Longrightarrow> a < b"
proof (rule ccontr)
  assume h: "(2::real) powi a < 2 powi b" and "\<not> a < b"
  then have "b \<le> a" by simp
  then have "(2::real) powi b \<le> 2 powi a" by (rule power_int_increasing) simp
  then show False using h by simp
qed

lemma roundTiesToEven_of_int: "roundTiesToEven (real_of_int n) = n"
  by (simp add: roundTiesToEven_def)

text \<open>A value with a significand of \<open>p\<close> bits and an exponent in range is left as it is.\<close>

lemma roundBinary_exact:
  assumes "emin \<le> emax" and "\<bar>m\<bar> < 2 ^ nat p" and "emin - p + 1 \<le> k"
  shows "roundBinary p emin emax (real_of_int m * 2 powi k) = real_of_int m * 2 powi k"
proof -
  define x :: real where "x = real_of_int m * 2 powi k"
  define e where "e = binade emin emax \<bar>x\<bar>"
  have le: "e - p + 1 \<le> k"
  proof (cases "emin < e")
    case True
    then have "2 powi e \<le> \<bar>x\<bar>" unfolding e_def by (rule binade_below)
    also have "\<bar>x\<bar> = real_of_int \<bar>m\<bar> * 2 powi k" by (simp add: x_def abs_mult)
    also have "\<dots> < 2 ^ nat p * 2 powi k"
    proof -
      have "real_of_int \<bar>m\<bar> < real_of_int (2 ^ nat p)" using assms(2) by (simp only: of_int_less_iff)
      then show ?thesis by (simp add: mult_strict_right_mono)
    qed
    also have "\<dots> = 2 powi int (nat p) * 2 powi k" by (simp only: power_int_of_nat)
    also have "\<dots> = 2 powi (int (nat p) + k)" by (simp add: power_int_add)
    finally have "e < int (nat p) + k" by (rule powi_less_imp_less)
    moreover have "0 < p"
    proof (rule ccontr)
      assume "\<not> 0 < p"
      then have "nat p = 0" by simp
      then have "\<bar>m\<bar> < 1" using assms(2) by simp
      then have "m = 0" by simp
      then have "x = 0" by (simp add: x_def)
      then have "(2::real) powi e \<le> 0" using \<open>2 powi e \<le> \<bar>x\<bar>\<close> by simp
      moreover have "0 < (2::real) powi e" by (rule zero_less_power_int) simp
      ultimately show False by simp
    qed
    ultimately show ?thesis by simp
  next
    case False
    then have "e = emin" using binade_range [OF assms(1), of "\<bar>x\<bar>"] by (simp add: e_def)
    then show ?thesis using assms(3) by simp
  qed
  define j where "j = nat (k - (e - p + 1))"
  have kj: "k = (e - p + 1) + int j" using le by (simp add: j_def)
  have "x / 2 powi (e - p + 1) = real_of_int m * 2 ^ j"
    unfolding x_def by (subst kj) (simp add: power_int_add)
  also have "\<dots> = real_of_int (m * 2 ^ j)" by simp
  finally have q: "x / 2 powi (e - p + 1) = real_of_int (m * 2 ^ j)" .
  have "roundBinary p emin emax x
          = real_of_int (roundTiesToEven (x / 2 powi (e - p + 1))) * 2 powi (e - p + 1)"
    by (simp add: roundBinary_def Let_def e_def)
  also have "\<dots> = real_of_int (m * 2 ^ j) * 2 powi (e - p + 1)"
    unfolding q roundTiesToEven_of_int ..
  also have "\<dots> = x / 2 powi (e - p + 1) * 2 powi (e - p + 1)" unfolding q ..
  also have "\<dots> = x" by simp
  finally show ?thesis unfolding x_def .
qed

lemma toDouble_exact:
  "\<bar>m\<bar> < 2 ^ 53 \<Longrightarrow> - 1074 \<le> k \<Longrightarrow> toDouble (real_of_int m * 2 powi k) = real_of_int m * 2 powi k"
  unfolding toDouble_def by (rule roundBinary_exact) simp_all

lemma toFloat32_exact:
  "\<bar>m\<bar> < 2 ^ 24 \<Longrightarrow> - 149 \<le> k \<Longrightarrow> toFloat32 (real_of_int m * 2 powi k) = real_of_int m * 2 powi k"
  unfolding toFloat32_def by (rule roundBinary_exact) simp_all

text \<open>The exponent of a value that lies in a binade within range.\<close>

lemma binade_at:
  "emin \<le> e \<Longrightarrow> e \<le> e0 \<Longrightarrow> 2 powi e \<le> x \<Longrightarrow> x < 2 powi (e + 1) \<Longrightarrow> binade emin e0 x = e"
proof (induction emin e0 x rule: binade.induct)
  case (1 emin e0 x)
  show ?case
  proof (cases "e0 \<le> emin \<or> 2 powi e0 \<le> x")
    case True
    then have b: "binade emin e0 x = e0" by (subst binade.simps) simp
    have "e0 \<le> e"
    proof (cases "e0 \<le> emin")
      case True
      then show ?thesis using "1.prems" by simp
    next
      case False
      then have "(2 powi e0 :: real) \<le> x" using \<open>e0 \<le> emin \<or> 2 powi e0 \<le> x\<close> by simp
      then have "(2 powi e0 :: real) < 2 powi (e + 1)" using "1.prems"(4) by linarith
      then have "e0 < e + 1" by (rule powi_less_imp_less)
      then show ?thesis by simp
    qed
    then show ?thesis using b "1.prems"(2) by simp
  next
    case False
    then have b: "binade emin e0 x = binade emin (e0 - 1) x" by (subst binade.simps) simp
    have "\<not> (2 powi e0 :: real) \<le> 2 powi e" using False "1.prems"(3) by linarith
    then have "e \<noteq> e0" by auto
    then have "e \<le> e0 - 1" using "1.prems"(2) by simp
    then show ?thesis using "1.IH" [OF False "1.prems"(1) _ "1.prems"(3,4)] b by simp
  qed
qed

lemma toFloat32_at:
  assumes "- 126 \<le> e" "e \<le> 127" "2 powi e \<le> \<bar>x\<bar>" "\<bar>x\<bar> < 2 powi (e + 1)"
  shows "toFloat32 x = real_of_int (roundTiesToEven (x / 2 powi (e - 23))) * 2 powi (e - 23)"
  using binade_at [OF assms(1,2,3,4)] by (simp add: toFloat32_def roundBinary_def Let_def)

lemma toDouble_at:
  assumes "- 1022 \<le> e" "e \<le> 1023" "2 powi e \<le> \<bar>x\<bar>" "\<bar>x\<bar> < 2 powi (e + 1)"
  shows "toDouble x = real_of_int (roundTiesToEven (x / 2 powi (e - 52))) * 2 powi (e - 52)"
  using binade_at [OF assms(1,2,3,4)] by (simp add: toDouble_def roundBinary_def Let_def)

subsection \<open>Resampling\<close>

lemma resample_index_in_range:
  assumes "ratio \<noteq> 0"
    and "round (toDouble (real n / ratio)) \<le> MAX_TYPED_ARRAY_LENGTH"
    and "i < nat (round (toDouble (real n / ratio)))"
  shows "0 \<le> \<lfloor>toDouble (real i * ratio)\<rfloor> \<and> \<lfloor>toDouble (real i * ratio)\<rfloor> < int n"
proof -
  define y where "y = toDouble (real n / ratio)"
  define t where "t = real i * ratio"
  define s where "s = toDouble t"
  have N: "int i + 1 \<le> round y" using assms(3) by (simp add: y_def)
  then have "real_of_int (int i + 1) \<le> real_of_int (round y)" by (simp only: of_int_le_iff)
  also have "\<dots> \<le> y + 1 / 2" unfolding round_def by linarith
  finally have iy: "real i + 1 / 2 \<le> y" by simp
  then have ypos: "0 < y" by linarith
  have x0pos: "0 < real n / ratio"
  proof (rule ccontr)
    assume "\<not> 0 < real n / ratio"
    then have "toDouble (real n / ratio) \<le> 0" by (simp add: toDouble_sign(2))
    then show False using ypos by (simp add: y_def)
  qed
  then have npos: "0 < real n" and rpos: "0 < ratio"
    using assms(1) by (auto simp: zero_less_divide_iff)
  then have n1: "1 \<le> real n" by simp
  have "real_of_int (round y) \<le> real_of_int MAX_TYPED_ARRAY_LENGTH"
    using assms(2) unfolding y_def by (simp only: of_int_le_iff)
  moreover have "y - 1 / 2 < real_of_int (round y)" unfolding round_def by linarith
  ultimately have yM: "y < 4294967295 + 1 / 2" by (simp add: MAX_TYPED_ARRAY_LENGTH_def)
  have ey: "\<bar>y - real n / ratio\<bar> \<le> (real n / ratio) / 2 ^ 53 + 1 / 2 ^ 100"
    using toDouble_error [of "real n / ratio"] x0pos by (simp add: y_def)
  have xr: "real n / ratio * ratio = real n" using rpos by simp
  have C: "y * ratio \<le> real n + real n / 2 ^ 53 + ratio / 2 ^ 100"
  proof -
    have "y \<le> real n / ratio + (real n / ratio) / 2 ^ 53 + 1 / 2 ^ 100" using ey by linarith
    then have "y * ratio \<le> (real n / ratio + (real n / ratio) / 2 ^ 53 + 1 / 2 ^ 100) * ratio"
      using rpos by (simp add: mult_right_mono)
    also have "\<dots> = real n + real n / 2 ^ 53 + ratio / 2 ^ 100"
      using xr rpos by (simp add: distrib_right)
    finally show ?thesis .
  qed
  have D: "real n - real n / 2 ^ 53 - ratio / 2 ^ 100 \<le> y * ratio"
  proof -
    have "real n / ratio - (real n / ratio) / 2 ^ 53 - 1 / 2 ^ 100 \<le> y" using ey by linarith
    then have "(real n / ratio - (real n / ratio) / 2 ^ 53 - 1 / 2 ^ 100) * ratio \<le> y * ratio"
      using rpos by (simp add: mult_right_mono)
    moreover have "(real n / ratio - (real n / ratio) / 2 ^ 53 - 1 / 2 ^ 100) * ratio
                   = real n - real n / 2 ^ 53 - ratio / 2 ^ 100"
      using xr rpos by (simp add: left_diff_distrib)
    ultimately show ?thesis by simp
  qed
  have E: "y * ratio < (4294967295 + 1 / 2) * ratio"
    using yM rpos by (simp add: mult_strict_right_mono)
  have B: "t \<le> y * ratio - ratio / 2"
  proof -
    have "real i * ratio \<le> (y - 1 / 2) * ratio"
      using iy rpos by (simp add: mult_right_mono)
    then show ?thesis by (simp add: t_def left_diff_distrib)
  qed
  have t0: "0 \<le> t" using rpos by (simp add: t_def)
  have A: "s \<le> t + t / 2 ^ 53 + 1 / 2 ^ 100"
    using toDouble_error [of t] t0 unfolding s_def by (simp add: abs_le_iff)
  have s0: "0 \<le> s" using t0 unfolding s_def by (rule toDouble_sign(1))
  have p: "(2 ^ 53 :: real) = 9007199254740992"
    "(2 ^ 100 :: real) = 1267650600228229401496703205376"
    by simp_all
  have "s < real n" using A B C D E n1 rpos unfolding p by argo
  then have "\<lfloor>s\<rfloor> < int n" by (simp add: floor_less_iff)
  moreover have "0 \<le> \<lfloor>s\<rfloor>" using s0 by simp
  ultimately show ?thesis by (simp add: s_def t_def)
qed

lemma resampleAudio_throws:
  assumes "fromRate \<noteq> toRate" and "toRate \<noteq> 0"
    and "if toDouble (fromRate / toRate) = 0 then audioData \<noteq> []
         else round (toDouble (real (length audioData) / toDouble (fromRate / toRate))) < 0
              \<or> MAX_TYPED_ARRAY_LENGTH
                  < round (toDouble (real (length audioData) / toDouble (fromRate / toRate)))"
  shows "resampleAudio audioData fromRate toRate = Inl RangeError"
  using assms by (simp add: resampleAudio_def Let_def split: if_splits)

lemma resampleAudio_returns:
  assumes "fromRate \<noteq> toRate"
    and "\<not> (toRate \<noteq> 0 \<and>
            (if toDouble (fromRate / toRate) = 0 then audioData \<noteq> []
             else round (toDouble (real (length audioData) / toDouble (fromRate / toRate))) < 0
                  \<or> MAX_TYPED_ARRAY_LENGTH
                      < round (toDouble (real (length audioData) / toDouble (fromRate / toRate)))))"
  shows "\<exists>result.
           resampleAudio audioData fromRate toRate = Inr result
           \<and> int (length result)
               = round (toDouble (real (length audioData) / toDouble (fromRate / toRate)))
           \<and> (\<forall>i < length result.
                 let srcIndex = toDouble (real i * toDouble (fromRate / toRate));
                     lower = nat \<lfloor>srcIndex\<rfloor>;
                     upper = nat (min (\<lfloor>srcIndex\<rfloor> + 1) (int (length audioData) - 1));
                     fraction = toDouble (srcIndex - real_of_int \<lfloor>srcIndex\<rfloor>)
                 in lower < length audioData \<and> upper < length audioData
                    \<and> result ! i
                        = toFloat32 (toDouble
                            (toDouble (audioData ! lower * toDouble (1 - fraction))
                             + toDouble (audioData ! upper * fraction))))"
proof -
  define ratio where "ratio = toDouble (fromRate / toRate)"
  define newLength where "newLength = round (toDouble (real (length audioData) / ratio))"
  have z: "toDouble 0 = 0"
    using toDouble_sign(1) [of 0] toDouble_sign(2) [of 0] by simp
  show ?thesis
  proof (cases "toRate = 0 \<or> ratio = 0")
    case True
    then have r0: "ratio = 0" using z by (auto simp: ratio_def)
    have e: "toRate = 0 \<or> audioData = []"
      using True assms(2) r0 by (auto simp: ratio_def)
    have "resampleAudio audioData fromRate toRate = Inr []"
      using assms(1) e r0 by (auto simp: resampleAudio_def Let_def ratio_def)
    moreover have "round (toDouble (real (length audioData) / ratio)) = 0"
      using r0 z by simp
    ultimately show ?thesis unfolding ratio_def [symmetric] by simp
  next
    case False
    then have t: "toRate \<noteq> 0" and r: "ratio \<noteq> 0" by simp_all
    have nn: "0 \<le> newLength" and mx: "newLength \<le> MAX_TYPED_ARRAY_LENGTH"
      using assms(2) t r by (simp_all add: ratio_def newLength_def)
    define result where "result = map (\<lambda>i.
                  let srcIndex = toDouble (real i * ratio);
                      srcIndexFloor = \<lfloor>srcIndex\<rfloor>;
                      srcIndexCeil = min (srcIndexFloor + 1) (int (length audioData) - 1);
                      fraction = toDouble (srcIndex - real_of_int srcIndexFloor)
                  in toFloat32 (toDouble
                       (toDouble (audioData ! nat srcIndexFloor * toDouble (1 - fraction))
                        + toDouble (audioData ! nat srcIndexCeil * fraction))))
                [0..<nat newLength]"
    have res: "resampleAudio audioData fromRate toRate = Inr result"
      using assms(1) t r nn mx
      by (simp add: resampleAudio_def Let_def result_def newLength_def ratio_def)
    have len: "int (length result) = newLength" using nn by (simp add: result_def)
    have el: "let srcIndex = toDouble (real i * ratio);
                  lower = nat \<lfloor>srcIndex\<rfloor>;
                  upper = nat (min (\<lfloor>srcIndex\<rfloor> + 1) (int (length audioData) - 1));
                  fraction = toDouble (srcIndex - real_of_int \<lfloor>srcIndex\<rfloor>)
              in lower < length audioData \<and> upper < length audioData
                 \<and> result ! i
                     = toFloat32 (toDouble
                         (toDouble (audioData ! lower * toDouble (1 - fraction))
                          + toDouble (audioData ! upper * fraction)))"
      if i: "i < length result" for i
    proof -
      have i': "i < nat newLength" using i by (simp add: result_def)
      have rng: "0 \<le> \<lfloor>toDouble (real i * ratio)\<rfloor>
                 \<and> \<lfloor>toDouble (real i * ratio)\<rfloor> < int (length audioData)"
        using resample_index_in_range [of ratio "length audioData" i] r mx i'
        by (simp add: newLength_def)
      have lo: "nat \<lfloor>toDouble (real i * ratio)\<rfloor> < length audioData" using rng by linarith
      have up: "nat (min (\<lfloor>toDouble (real i * ratio)\<rfloor> + 1) (int (length audioData) - 1))
                < length audioData"
        using rng by linarith
      have "result ! i = (let srcIndex = toDouble (real i * ratio);
                      srcIndexFloor = \<lfloor>srcIndex\<rfloor>;
                      srcIndexCeil = min (srcIndexFloor + 1) (int (length audioData) - 1);
                      fraction = toDouble (srcIndex - real_of_int srcIndexFloor)
                  in toFloat32 (toDouble
                       (toDouble (audioData ! nat srcIndexFloor * toDouble (1 - fraction))
                        + toDouble (audioData ! nat srcIndexCeil * fraction))))"
        using i' by (simp add: result_def)
      then show ?thesis using lo up by (simp add: Let_def)
    qed
    show ?thesis
      using res len el unfolding newLength_def ratio_def by blast
  qed
qed

text \<open>
  Claim C9, as amended. \<open>resampleAudio data r r\<close> returns its input unchanged for every
  rate \<open>r\<close>. For \<open>fromRate \<noteq> toRate\<close>, with \<open>ratio = fromRate / toRate\<close> and every
  arithmetic result rounded to double precision, it throws a \<open>RangeError\<close> exactly when
  \<open>new Float32Array\<close> refuses the length (the ratio is zero and the input is not empty,
  or \<open>round (inputLength / ratio)\<close> is negative or beyond the typed-array limit), and
  otherwise returns an array of length \<open>round (inputLength / ratio)\<close> whose \<open>i\<close>-th element
  is the linear interpolation between the input samples at \<open>floor (i * ratio)\<close> and at
  the next index, clamped to the last input sample, weighted by the fractional part of
  \<open>i * ratio\<close>, computed in double precision and rounded to float32 when it is stored;
  both reads are inside the input.
\<close>

theorem resampleAudio_spec:
  "resampleAudio audioData r r = Inr audioData
   \<and> (fromRate \<noteq> toRate \<longrightarrow>
        (let ratio = toDouble (fromRate / toRate);
             newLength = round (toDouble (real (length audioData) / ratio))
         in if toRate \<noteq> 0 \<and>
               (if ratio = 0 then audioData \<noteq> []
                else newLength < 0 \<or> MAX_TYPED_ARRAY_LENGTH < newLength)
            then resampleAudio audioData fromRate toRate = Inl RangeError
            else (\<exists>result.
               resampleAudio audioData fromRate toRate = Inr result
               \<and> int (length result) = newLength
               \<and> (\<forall>i < length result.
                     let srcIndex = toDouble (real i * ratio);
                         lower = nat \<lfloor>srcIndex\<rfloor>;
                         upper = nat (min (\<lfloor>srcIndex\<rfloor> + 1) (int (length audioData) - 1));
                         fraction = toDouble (srcIndex - real_of_int \<lfloor>srcIndex\<rfloor>)
                     in lower < length audioData \<and> upper < length audioData
                        \<and> result ! i
                            = toFloat32 (toDouble
                                (toDouble (audioData ! lower * toDouble (1 - fraction))
                                 + toDouble (audioData ! upper * fraction)))))))"
proof (intro conjI impI)
  show "resampleAudio audioData r r = Inr audioData" by (simp add: resampleAudio_def)
next
  assume ne: "fromRate \<noteq> toRate"
  show "let ratio = toDouble (fromRate / toRate);
             newLength = round (toDouble (real (length audioData) / ratio))
         in if toRate \<noteq> 0 \<and>
               (if ratio = 0 then audioData \<noteq> []
                else newLength < 0 \<or> MAX_TYPED_ARRAY_LENGTH < newLength)
            then resampleAudio audioData fromRate toRate = Inl RangeError
            else (\<exists>result.
               resampleAudio audioData fromRate toRate = Inr result
               \<and> int (length result) = newLength
               \<and> (\<forall>i < length result.
                     let srcIndex = toDouble (real i * ratio);
                         lower = nat \<lfloor>srcIndex\<rfloor>;
                         upper = nat (min (\<lfloor>srcIndex\<rfloor> + 1) (int (length audioData) - 1));
                         fraction = toDouble (srcIndex - real_of_int \<lfloor>srcIndex\<rfloor>)
                     in lower < length audioData \<and> upper < length audioData
                        \<and> result ! i
                            = toFloat32 (toDouble
                                (toDouble (audioData ! lower * toDouble (1 - fraction))
                                 + toDouble (audioData ! upper * fraction)))))"
  proof (cases "toRate \<noteq> 0 \<and>
               (if toDouble (fromRate / toRate) = 0 then audioData \<noteq> []
                else round (toDouble (real (length audioData) / toDouble (fromRate / toRate))) < 0
                     \<or> MAX_TYPED_ARRAY_LENGTH
                        < round (toDouble (real (length audioData) / toDouble (fromRate / toRate))))")
    case True
    then have "resampleAudio audioData fromRate toRate = Inl RangeError"
      using resampleAudio_throws [OF ne, of audioData] by blast
    then show ?thesis unfolding Let_def if_P [OF True] .
  next
    case False
    note h = resampleAudio_returns [OF ne False, unfolded Let_def]
    show ?thesis unfolding Let_def if_not_P [OF False] by (rule h)
  qed
qed


text \<open>
  Six samples from 48 kHz to 16 kHz: the ratio is 3, and the two samples that come back are
  the input samples at 0 and at 3.  A source rate of zero on a non-empty input: the ratio is 0,
  the length is infinite and the allocation throws.
\<close>

theorem resampleAudio_spec_witness:
  "(\<exists>result. resampleAudio [0, 3, 6, 9, 12, 15] 48000 16000 = Inr result \<and> length result = 2
       \<and> result ! 0 = 0 \<and> result ! 1 = 9)
   \<and> resampleAudio [0, 1] 0 1 = Inl RangeError"
proof -
  have rA: "toDouble (48000 / 16000) = 3" using toDouble_exact [of 3 0] by simp
  have d: "toDouble 0 = 0" "toDouble 1 = 1" "toDouble 2 = 2" "toDouble 3 = 3" "toDouble 9 = 9"
    using toDouble_exact [of 0 0] toDouble_exact [of 1 0] toDouble_exact [of 2 0]
      toDouble_exact [of 3 0] toDouble_exact [of 9 0]
    by simp_all
  have f: "toFloat32 0 = 0" "toFloat32 9 = 9"
    using toFloat32_exact [of 0 0] toFloat32_exact [of 9 0] by simp_all
  have nA: "round (toDouble (real (length [0, 3, 6, 9, 12, 15 :: real]) / 3)) = 2"
    by (simp add: d)
  have rB: "toDouble (0 / 1) = 0" using toDouble_exact [of 0 0] by simp
  have cA: "\<not> ((16000::real) \<noteq> 0 \<and> (if (3::real) = 0 then [0, 3, 6, 9, 12, 15 :: real] \<noteq> []
               else (2::int) < 0 \<or> MAX_TYPED_ARRAY_LENGTH < 2))"
    by (simp add: MAX_TYPED_ARRAY_LENGTH_def)
  have cB: "(1::real) \<noteq> 0 \<and> (if (0::real) = 0 then [0, 1 :: real] \<noteq> []
               else round (toDouble (real (length [0, 1 :: real]) / 0)) < 0
                 \<or> MAX_TYPED_ARRAY_LENGTH < round (toDouble (real (length [0, 1 :: real]) / 0)))"
    by simp
  have "(48000::real) \<noteq> 16000" by simp
  then obtain result where r: "resampleAudio [0, 3, 6, 9, 12, 15] 48000 16000 = Inr result"
      "int (length result) = 2"
      "\<forall>i < length result.
         result ! i = toFloat32 (toDouble
           (toDouble ([0, 3, 6, 9, 12, 15] ! nat \<lfloor>toDouble (real i * 3)\<rfloor>
              * toDouble (1 - toDouble (toDouble (real i * 3)
                                        - real_of_int \<lfloor>toDouble (real i * 3)\<rfloor>)))
            + toDouble ([0, 3, 6, 9, 12, 15]
                ! nat (min (\<lfloor>toDouble (real i * 3)\<rfloor> + 1)
                        (int (length [0, 3, 6, 9, 12, 15 :: real]) - 1))
              * toDouble (toDouble (real i * 3) - real_of_int \<lfloor>toDouble (real i * 3)\<rfloor>))))"
    using resampleAudio_spec [where audioData = "[0, 3, 6, 9, 12, 15]" and fromRate = 48000
        and toRate = 16000, unfolded Let_def rA nA if_not_P [OF cA]]
    by blast
  have l: "length result = 2" using r(2) by simp
  have "result ! 0 = 0" using r(3) [rule_format, of 0] by (simp add: l d f)
  moreover have "result ! 1 = 9" using r(3) [rule_format, of 1] by (simp add: l d f)
  ultimately have A: "\<exists>result. resampleAudio [0, 3, 6, 9, 12, 15] 48000 16000 = Inr result
      \<and> length result = 2 \<and> result ! 0 = 0 \<and> result ! 1 = 9"
    using r(1) l by blast
  have B: "resampleAudio [0, 1] 0 1 = Inl RangeError"
    using resampleAudio_spec [where audioData = "[0, 1]" and fromRate = 0 and toRate = 1,
        unfolded Let_def rB if_P [OF cB]]
    by simp
  show ?thesis using A B by blast
qed

text \<open>
  Two samples from 8 kHz to 16 kHz.  The second output sample lies half way between the two inputs:
  the interpolation formula gives \<open>- 33554431 / 67108864\<close>, which has 25 significant bits, and
  the store into the \<open>Float32Array\<close> rounds it to \<open>- 1 / 2\<close>.
\<close>

theorem resampleAudio_counterexample:
  "resampleAudio [- 1 / 2, - 16777215 / 33554432] 8000 16000
     = Inr [- 1 / 2, - 1 / 2, - 16777215 / 33554432, - 16777215 / 33554432]
   \<and> spec_interpolation [- 1 / 2, - 16777215 / 33554432] (8000 / 16000) 1 = - 33554431 / 67108864
   \<and> (- 33554431 / 67108864 :: real) \<noteq> - 1 / 2"
proof -
  have d: "toDouble 0 = 0" "toDouble 1 = 1" "toDouble (1 / 2) = 1 / 2" "toDouble (3 / 2) = 3 / 2"
      "toDouble 4 = 4" "toDouble (- (1 / 2)) = - (1 / 2)" "toDouble (- (1 / 4)) = - (1 / 4)"
      "toDouble (- (16777215 / 33554432)) = - (16777215 / 33554432)"
      "toDouble (- (16777215 / 67108864)) = - (16777215 / 67108864)"
      "toDouble (- (33554431 / 67108864)) = - (33554431 / 67108864)"
    using toDouble_exact [of 0 0] toDouble_exact [of 1 0] toDouble_exact [of 1 "- 1"]
      toDouble_exact [of 3 "- 1"] toDouble_exact [of 1 2] toDouble_exact [of "- 1" "- 1"]
      toDouble_exact [of "- 1" "- 2"] toDouble_exact [of "- 16777215" "- 25"]
      toDouble_exact [of "- 16777215" "- 26"] toDouble_exact [of "- 33554431" "- 26"]
    by (simp_all add: power_int_minus field_simps)
  have f: "toFloat32 (- (1 / 2)) = - (1 / 2)"
      "toFloat32 (- (16777215 / 33554432)) = - (16777215 / 33554432)"
    using toFloat32_exact [of "- 1" "- 1"] toFloat32_exact [of "- 16777215" "- 25"]
    by (simp_all add: power_int_minus field_simps)
  have g: "toFloat32 (- (33554431 / 67108864)) = - (1 / 2)"
    using toFloat32_at [of "- 2" "- (33554431 / 67108864)"]
    by (simp add: power_int_minus roundTiesToEven_def field_simps)
  have u: "[0..<4] = [0, 1, 2, 3]" by (simp add: upt_conv_Cons)
  show ?thesis
    by (simp add: resampleAudio_def spec_interpolation_def Let_def MAX_TYPED_ARRAY_LENGTH_def
          d f g u)
qed

section \<open>Properties of the session protocol\<close>

lemma handleMessage_response:
  "handleMessage \<lparr>uuid = u, receivedAt = t, parsed = Some (ResponseMessage c j e)\<rparr> s
   = addMessage \<lparr>msg_id = u, role = Assistant, content = c, contentJp = Some j,
                  emotion = Some e, timestamp = t, isPartial = None\<rparr> (setIsThinking False s)"
  by (simp add: handleMessage_def inbound_calls_def)

lemma handleMessage_turn_end:
  "handleMessage \<lparr>uuid = u, receivedAt = t, parsed = Some TurnEndMessage\<rparr> s
   = setPipelineStage Idle (setIsThinking False s)"
  by (simp add: handleMessage_def inbound_calls_def)

text \<open>
  Claim C4. When the inbound dispatch handler processes three reply-content (\<open>response\<close>)
  messages followed by one turn-end message, exactly three assistant messages are
  appended to the message log, each carrying the delivered content, the
  secondary-language text and the emotion tag, and the pipeline stage is set to idle
  exactly once: by the turn-end handler, while no response handler sets the stage.
\<close>

theorem three_responses_then_turn_end:
  "(let r1 = \<lparr>uuid = u1, receivedAt = t1, parsed = Some (ResponseMessage c1 j1 e1)\<rparr>;
        r2 = \<lparr>uuid = u2, receivedAt = t2, parsed = Some (ResponseMessage c2 j2 e2)\<rparr>;
        r3 = \<lparr>uuid = u3, receivedAt = t3, parsed = Some (ResponseMessage c3 j3 e3)\<rparr>;
        te = \<lparr>uuid = u4, receivedAt = t4, parsed = Some TurnEndMessage\<rparr>;
        s' = handleMessages [r1, r2, r3, te] s
    in messages s' = messages s @
         [\<lparr>msg_id = u1, role = Assistant, content = c1, contentJp = Some j1,
           emotion = Some e1, timestamp = t1, isPartial = None\<rparr>,
          \<lparr>msg_id = u2, role = Assistant, content = c2, contentJp = Some j2,
           emotion = Some e2, timestamp = t2, isPartial = None\<rparr>,
          \<lparr>msg_id = u3, role = Assistant, content = c3, contentJp = Some j3,
           emotion = Some e3, timestamp = t3, isPartial = None\<rparr>]
       \<and> stage_calls (inbound_calls r1) = []
       \<and> stage_calls (inbound_calls r2) = []
       \<and> stage_calls (inbound_calls r3) = []
       \<and> stage_calls (inbound_calls te) = [Idle]
       \<and> stage_calls (concat (map inbound_calls [r1, r2, r3, te])) = [Idle]
       \<and> pipelineStage s' = Idle)"
  by (simp add: handleMessages_def handleMessage_response handleMessage_turn_end
        inbound_calls_def addMessage_def setIsThinking_def setPipelineStage_def)

text \<open>
  Claim C7. \<open>connect\<close> is a no-op when the existing transport is already OPEN: the whole
  state, and with it the set of constructed transports, is unchanged. Otherwise, when
  the auth token is empty, \<open>connect\<close> only sets the user-visible error message: no
  transport is constructed, the connection status and the stored transport are
  unchanged, and no reconnect timer is armed.
\<close>

theorem connect_guards:
  "(isOpen (ws s) \<longrightarrow> connect characterName s = s)
   \<and> (\<not> isOpen (ws s) \<and> apiToken s = [] \<longrightarrow>
        connect characterName s = setErrorMessage (Some MSG_ENTER_TOKEN) s
        \<and> errorMessage (connect characterName s) = Some MSG_ENTER_TOKEN
        \<and> hostSockets (connect characterName s) = hostSockets s
        \<and> ws (connect characterName s) = ws s
        \<and> connectionStatus (connect characterName s) = connectionStatus s
        \<and> hostTimeouts (connect characterName s) = hostTimeouts s
        \<and> reconnectTimeoutRef (connect characterName s) = reconnectTimeoutRef s)"
  by (simp add: connect_def Let_def setErrorMessage_def)

text \<open>
  An open session, on which \<open>connect\<close> changes nothing, and a fresh session without a
  token, on which it reports the missing token and constructs no transport.
\<close>

theorem connect_guards_witness:
  "(let s = (session_init (initialState ''token'' True))
               \<lparr>ws := Some \<lparr>socketId = 1, url = WS_URL, readyState = OPEN\<rparr>,
                connectionStatus := Connected\<rparr>
    in isOpen (ws s) \<and> connect ''anon'' s = s)
   \<and> (let s = session_init (initialState [] True)
       in \<not> isOpen (ws s) \<and> apiToken s = []
          \<and> errorMessage (connect ''anon'' s) = Some MSG_ENTER_TOKEN
          \<and> hostSockets (connect ''anon'' s) = []
          \<and> connectionStatus (connect ''anon'' s) = Disconnected)"
proof -
  let ?a = "(session_init (initialState ''token'' True))
               \<lparr>ws := Some \<lparr>socketId = 1, url = WS_URL, readyState = OPEN\<rparr>,
                connectionStatus := Connected\<rparr>"
  let ?b = "session_init (initialState [] True)"
  have a: "isOpen (ws ?a)" by (simp add: isOpen_def)
  have b: "\<not> isOpen (ws ?b) \<and> apiToken ?b = []"
    by (simp add: isOpen_def session_init_def initialState_def chat_state.defs)
  have c: "hostSockets ?b = [] \<and> connectionStatus ?b = Disconnected"
    by (simp add: session_init_def initialState_def chat_state.defs)
  from connect_guards [of ?a "''anon''"] a have A: "connect ''anon'' ?a = ?a" by blast
  from connect_guards [of ?b "''anon''"] b
  have B: "errorMessage (connect ''anon'' ?b) = Some MSG_ENTER_TOKEN
           \<and> hostSockets (connect ''anon'' ?b) = hostSockets ?b
           \<and> connectionStatus (connect ''anon'' ?b) = connectionStatus ?b"
    by blast
  show ?thesis unfolding Let_def using a b c A B by metis
qed

lemma onclose_never_schedules:
  "hostTimeouts (onclose characterName s) = hostTimeouts s
   \<and> reconnectTimeoutRef (onclose characterName s) = reconnectTimeoutRef s"
  by (simp add: onclose_def Let_def setConnectionStatus_def setWs_def clearInterval_session_def)

text \<open>
  Claim C2 asks for one reconnect timer after the close of a session whose status was
  \<open>Connected\<close>. The close handler overwrites the status with \<open>Disconnected\<close> before it
  reads it, so its test never succeeds: on a session that has connected and received
  the server's \<open>connected\<close> message, the handler arms no timer.
\<close>

theorem onclose_connected_schedules_nothing:
  "(let s = handleMessage \<lparr>uuid = ''u'', receivedAt = 0,
                            parsed = Some (ConnectedMessage ''anon'' ''Anon'')\<rparr>
              (connect ''anon'' (session_init (initialState ''token'' True)))
    in connectionStatus s = Connected
       \<and> hostTimeouts (onclose ''anon'' s) = []
       \<and> reconnectTimeoutRef (onclose ''anon'' s) = None
       \<and> connectionStatus (onclose ''anon'' s) = Disconnected)"
  by (simp add: Let_def onclose_never_schedules handleMessage_def inbound_calls_def
        connect_def isOpen_def session_init_def initialState_def chat_state.defs
        setConnectionStatus_def setErrorMessage_def setWs_def setCurrentCharacter_def
        onclose_def truthy_def)

section \<open>Properties of the playback scheduler\<close>

subsection \<open>Gapless scheduling\<close>









subsection \<open>Which callbacks touch which refs\<close>

lemma getAudioContext_keeps:
  "isPlayingRef (getAudioContext s) = isPlayingRef s"
  "streamEndedRef (getAudioContext s) = streamEndedRef s"
  "started (getAudioContext s) = started s"
  "stopped (getAudioContext s) = stopped s"
  "playerCounter (getAudioContext s) = playerCounter s"
  "consoleErrors (getAudioContext s) = consoleErrors s"
  "animationFrameRef (getAudioContext s) = animationFrameRef s"
  "playbackCheckIntervalRef (getAudioContext s) = playbackCheckIntervalRef s"
  "isPlaying (getAudioContext s) = isPlaying s"
  "pipelineStage (getAudioContext s) = pipelineStage s"
  "volumeLevel (getAudioContext s) = volumeLevel s"
  "volumeLevelRef (getAudioContext s) = volumeLevelRef s"
  "nextStartTimeRef s = 0 \<Longrightarrow> nextStartTimeRef (getAudioContext s) = 0"
  by (simp_all add: getAudioContext_def Let_def split: option.splits)

lemma getAudioContext_context:
  "\<exists>ctx. audioContextRef (getAudioContext s) = Some ctx \<and> contextState ctx \<noteq> Closed"
  by (cases "audioContextRef s") (auto simp: getAudioContext_def Let_def)

lemma getAudioContext_inv_keeps:
  assumes "scheduler_inv s"
  shows "lastScheduledEndTimeRef (getAudioContext s) = lastScheduledEndTimeRef s"
    and "scheduledSourcesRef (getAudioContext s) = scheduledSourcesRef s"
    and "analyserRef (getAudioContext s) \<noteq> None"
  using assms
  by (auto simp: scheduler_inv_def getAudioContext_def Let_def split: option.splits)

lemma scheduler_inv_getAudioContext:
  "scheduler_inv s \<Longrightarrow> scheduler_inv (getAudioContext s)"
  using getAudioContext_context [of s]
  by (auto simp: scheduler_inv_def getAudioContext_inv_keeps getAudioContext_keeps
      split: option.splits)


lemma updateVolume_keeps:
  "streamEndedRef (updateVolume w s) = streamEndedRef s"
  "isPlayingRef (updateVolume w s) = isPlayingRef s"
  "playbackCheckIntervalRef (updateVolume w s) = playbackCheckIntervalRef s"
  "scheduler_inv (updateVolume w s) = scheduler_inv s"
  by (auto simp: updateVolume_def Let_def setVolumeLevel_def scheduler_inv_def)

lemma startVolumeMonitoring_keeps:
  "streamEndedRef (startVolumeMonitoring w s) = streamEndedRef s"
  "isPlayingRef (startVolumeMonitoring w s) = isPlayingRef s"
  "playbackCheckIntervalRef (startVolumeMonitoring w s) = playbackCheckIntervalRef s"
  "scheduler_inv (startVolumeMonitoring w s) = scheduler_inv s"
  by (simp_all add: startVolumeMonitoring_def updateVolume_keeps split: option.splits)

lemma stopVolumeMonitoring_keeps:
  "streamEndedRef (stopVolumeMonitoring s) = streamEndedRef s"
  "isPlayingRef (stopVolumeMonitoring s) = isPlayingRef s"
  "isPlaying (stopVolumeMonitoring s) = isPlaying s"
  "pipelineStage (stopVolumeMonitoring s) = pipelineStage s"
  "playbackCheckIntervalRef (stopVolumeMonitoring s) = playbackCheckIntervalRef s"
  "audioContextRef (stopVolumeMonitoring s) = audioContextRef s"
  "lastScheduledEndTimeRef (stopVolumeMonitoring s) = lastScheduledEndTimeRef s"
  "scheduledSourcesRef (stopVolumeMonitoring s) = scheduledSourcesRef s"
  "scheduler_inv (stopVolumeMonitoring s) = scheduler_inv s"
  "volumeLevel (stopVolumeMonitoring s) = 0"
  "volumeLevelRef (stopVolumeMonitoring s) = 0"
  by (auto simp: stopVolumeMonitoring_def Let_def setVolumeLevel_def scheduler_inv_def)

lemma dispatch_keeps:
  "streamEndedRef (dispatch a s) = streamEndedRef s"
  "scheduler_inv (dispatch a s) = scheduler_inv s"
  by (cases a;
      simp add: scheduler_inv_def setConnectionStatus_def setErrorMessage_def
        setCurrentCharacter_def addMessage_def setPartialTranscription_def
        setPipelineStage_def setIsThinking_def setIsRecording_def setIsPlaying_def
        setVolumeLevel_def clearMessages_def)+

lemma scheduleBuffer_keeps:
  "streamEndedRef (scheduleBuffer t b s) = streamEndedRef s"
  "isPlayingRef (scheduleBuffer t b s) = isPlayingRef s"
  "playbackCheckIntervalRef (scheduleBuffer t b s) = playbackCheckIntervalRef s"
  "scheduler_inv s \<Longrightarrow> scheduler_inv (scheduleBuffer t b s)"
  by (auto simp: scheduleBuffer_def Let_def scheduler_inv_def endTime_def
      split: option.splits if_splits)

lemma onended_keeps:
  "streamEndedRef (onended src s) = streamEndedRef s"
  "scheduler_inv s \<Longrightarrow> scheduler_inv (onended src s)"
  by (auto simp: onended_def scheduler_inv_def split: option.splits)

lemma checkPlaybackEnded_keeps:
  "streamEndedRef (checkPlaybackEnded t s) = streamEndedRef s"
  "scheduler_inv s \<Longrightarrow> scheduler_inv (checkPlaybackEnded t s)"
  by (auto simp: checkPlaybackEnded_def Let_def scheduler_inv_def setIsPlaying_def
        setPipelineStage_def stopVolumeMonitoring_def setVolumeLevel_def
      split: option.splits)

lemma addAudioChunk_keeps:
  "streamEndedRef (addAudioChunk t w d r s) = streamEndedRef s"
  "scheduler_inv s \<Longrightarrow> scheduler_inv (addAudioChunk t w d r s)"
proof -
  show "streamEndedRef (addAudioChunk t w d r s) = streamEndedRef s"
    by (simp add: addAudioChunk_def Let_def getAudioContext_keeps scheduleBuffer_keeps
          startVolumeMonitoring_keeps setIsPlaying_def split: sum.splits)
  assume "scheduler_inv s"
  then have i: "scheduler_inv (getAudioContext s)" by (rule scheduler_inv_getAudioContext)
  have u: "scheduler_inv (x\<lparr>consoleErrors := n\<rparr>) = scheduler_inv x"
    "scheduler_inv (setIsPlaying p (x\<lparr>isPlayingRef := q\<rparr>)) = scheduler_inv x"
    "scheduler_inv (x\<lparr>playerCounter := m, playbackCheckIntervalRef := h\<rparr>) = scheduler_inv x"
    for x n p q m h
    by (simp_all add: scheduler_inv_def setIsPlaying_def)
  show "scheduler_inv (addAudioChunk t w d r s)"
    using i scheduleBuffer_keeps(4) [of "getAudioContext s"]
    by (simp add: addAudioChunk_def Let_def u startVolumeMonitoring_keeps split: sum.splits)
qed

lemma stopPlayback_keeps:
  "\<not> streamEndedRef (stopPlayback s)"
  "scheduler_inv s \<Longrightarrow> scheduler_inv (stopPlayback s)"
  "lastScheduledEndTimeRef (stopPlayback s) = 0"
  "scheduledSourcesRef (stopPlayback s) = []"
  "nextStartTimeRef (stopPlayback s) = nextStartTimeRef s"
  by (auto simp: stopPlayback_def Let_def scheduler_inv_def setIsPlaying_def
        stopVolumeMonitoring_def setVolumeLevel_def split: option.splits)

lemma unmount_keeps:
  "\<not> streamEndedRef (unmount s)"
  "scheduler_inv s \<Longrightarrow> scheduler_inv (unmount s)"
proof -
  show "\<not> streamEndedRef (unmount s)"
    using stopPlayback_keeps(1) [of s] by (simp add: unmount_def Let_def)
  assume "scheduler_inv s"
  then have "nextStartTimeRef s = 0" by (simp add: scheduler_inv_def)
  then show "scheduler_inv (unmount s)"
    using stopPlayback_keeps(3-5) [of s] by (simp add: unmount_def Let_def scheduler_inv_def)
qed

lemma handleMessage_player_keeps:
  "streamEndedRef (handleMessage_player t w d s)
     \<Longrightarrow> streamEndedRef s \<or> d = Some AudioEndMessage"
  "scheduler_inv s \<Longrightarrow> scheduler_inv (handleMessage_player t w d s)"
proof -
  show "streamEndedRef (handleMessage_player t w d s)
     \<Longrightarrow> streamEndedRef s \<or> d = Some AudioEndMessage"
    by (auto simp: handleMessage_player_def getAudioContext_keeps addAudioChunk_keeps
        split: option.splits server_message.splits)
  have u: "scheduler_inv x \<Longrightarrow> scheduler_inv (x\<lparr>lastScheduledEndTimeRef := 0, streamEndedRef := False\<rparr>)"
    "scheduler_inv (x\<lparr>streamEndedRef := True\<rparr>) = scheduler_inv x" for x
    by (auto simp: scheduler_inv_def split: option.splits)
  show "scheduler_inv s \<Longrightarrow> scheduler_inv (handleMessage_player t w d s)"
    by (auto simp: handleMessage_player_def u scheduler_inv_getAudioContext
          addAudioChunk_keeps split: option.splits server_message.splits)
qed

lemma player_step_keeps:
  "streamEndedRef (player_step ev s)
     \<Longrightarrow> streamEndedRef s \<or> callback ev = Message (Some AudioEndMessage)"
  "scheduler_inv s \<Longrightarrow> scheduler_inv (player_step ev s)"
proof -
  show "streamEndedRef (player_step ev s)
     \<Longrightarrow> streamEndedRef s \<or> callback ev = Message (Some AudioEndMessage)"
    using handleMessage_player_keeps(1) [of "clock ev" "waveform ev" _ s]
      stopPlayback_keeps(1) [of s] unmount_keeps(1) [of s]
    by (auto simp: player_step_def dispatch_keeps checkPlaybackEnded_keeps
          updateVolume_keeps onended_keeps
        split: player_callback.splits option.splits if_splits)
  have u: "scheduler_inv x \<Longrightarrow> audioContextRef x = Some c \<Longrightarrow> contextState c = Suspended
           \<Longrightarrow> scheduler_inv (x\<lparr>audioContextRef := Some (c\<lparr>contextState := Running\<rparr>)\<rparr>)" for x c
    by (simp add: scheduler_inv_def)
  show "scheduler_inv s \<Longrightarrow> scheduler_inv (player_step ev s)"
    by (auto simp: player_step_def dispatch_keeps checkPlaybackEnded_keeps updateVolume_keeps
          onended_keeps handleMessage_player_keeps stopPlayback_keeps unmount_keeps u
        split: player_callback.splits option.splits)
qed

lemma player_run_snoc: "player_run (evs @ [ev]) s = player_step ev (player_run evs s)"
  by (simp add: player_run_def)

lemma player_init_facts:
  "\<not> streamEndedRef (player_init st)" "scheduler_inv (player_init st)"
  by (simp_all add: player_init_def scheduler_inv_def chat_state.defs player.defs)

lemma scheduler_inv_run: "scheduler_inv s \<Longrightarrow> scheduler_inv (player_run evs s)"
  by (induction evs rule: rev_induct) (simp_all add: player_run_snoc player_step_keeps player_run_def)

lemma streamEnded_run:
  "streamEndedRef (player_run evs s)
     \<Longrightarrow> streamEndedRef s \<or> (\<exists>ev \<in> set evs. callback ev = Message (Some AudioEndMessage))"
proof (induction evs rule: rev_induct)
  case Nil
  then show ?case by (simp add: player_run_def)
next
  case (snoc ev evs)
  then show ?case
    using player_step_keeps(1) [of ev "player_run evs s"] by (auto simp: player_run_snoc)
qed

subsection \<open>Drain detection\<close>

lemma checkPlaybackEnded_idle: "\<not> drain_due t s \<Longrightarrow> checkPlaybackEnded t s = s"
  by (cases "audioContextRef s") (auto simp: drain_due_def checkPlaybackEnded_def)

lemma checkPlaybackEnded_fire:
  assumes "drain_due t s"
  shows "\<not> isPlayingRef (checkPlaybackEnded t s)"
    and "\<not> isPlaying (checkPlaybackEnded t s)"
    and "pipelineStage (checkPlaybackEnded t s) = Idle"
    and "volumeLevel (checkPlaybackEnded t s) = 0"
    and "volumeLevelRef (checkPlaybackEnded t s) = 0"
proof -
  let ?s4 = "stopVolumeMonitoring (setPipelineStage Idle (setIsPlaying False
               (s\<lparr>scheduledSourcesRef := [], isPlayingRef := False\<rparr>)))"
  obtain c where c: "audioContextRef s = Some c" using assms by (auto simp: drain_due_def)
  have e: "checkPlaybackEnded t s =
             (if truthy (playbackCheckIntervalRef ?s4)
              then ?s4\<lparr>playbackCheckIntervalRef := None\<rparr> else ?s4)"
    using assms c by (simp add: drain_due_def checkPlaybackEnded_def Let_def)
  have f: "\<not> isPlayingRef ?s4" "\<not> isPlaying ?s4" "pipelineStage ?s4 = Idle"
    "volumeLevel ?s4 = 0" "volumeLevelRef ?s4 = 0"
    by (simp_all add: stopVolumeMonitoring_keeps setPipelineStage_def setIsPlaying_def)
  show "\<not> isPlayingRef (checkPlaybackEnded t s)" unfolding e using f(1) by simp
  show "\<not> isPlaying (checkPlaybackEnded t s)" unfolding e using f(2) by simp
  show "pipelineStage (checkPlaybackEnded t s) = Idle" unfolding e using f(3) by simp
  show "volumeLevel (checkPlaybackEnded t s) = 0" unfolding e using f(4) by simp
  show "volumeLevelRef (checkPlaybackEnded t s) = 0" unfolding e using f(5) by simp
qed

lemma drained_iff: "drained s (checkPlaybackEnded t s) = drain_due t s"
proof (cases "drain_due t s")
  case True
  then show ?thesis using checkPlaybackEnded_fire(1) [of t s] by (simp add: drained_def drain_due_def)
next
  case False
  then show ?thesis using checkPlaybackEnded_idle [of t s] by (simp add: drained_def)
qed

lemma checkPlaybackEnded_drained:
  assumes "drained s (checkPlaybackEnded t s)"
  shows "streamEndedRef s \<and> lastScheduledEndTimeRef s \<le> t
         \<and> \<not> isPlaying (checkPlaybackEnded t s)
         \<and> pipelineStage (checkPlaybackEnded t s) = Idle
         \<and> volumeLevel (checkPlaybackEnded t s) = 0
         \<and> volumeLevelRef (checkPlaybackEnded t s) = 0"
proof -
  have d: "drain_due t s" using assms by (simp add: drained_iff)
  then have "streamEndedRef s \<and> lastScheduledEndTimeRef s \<le> t" by (simp add: drain_due_def)
  then show ?thesis using checkPlaybackEnded_fire [OF d] by simp
qed

lemma checkPlaybackEnded_not_drained:
  assumes "\<not> drained s (checkPlaybackEnded t s)"
  shows "checkPlaybackEnded t s = s"
  using assms by (simp add: drained_iff checkPlaybackEnded_idle)

lemma checkPlaybackEnded_stream_open:
  "\<not> streamEndedRef s \<Longrightarrow> checkPlaybackEnded t s = s"
  by (rule checkPlaybackEnded_idle) (simp add: drain_due_def)

lemma baseline_run:
  "lastScheduledEndTimeRef (player_run evs (player_init st)) = 0
   \<or> started (player_run evs (player_init st)) \<noteq> []
     \<and> lastScheduledEndTimeRef (player_run evs (player_init st))
         = endTime (last (started (player_run evs (player_init st))))"
  using scheduler_inv_run [OF player_init_facts(2), of evs st]
  by (simp add: scheduler_inv_def)

text \<open>
  What the periodic check \<open>checkPlaybackEnded\<close> guarantees. It takes the drain
  transition (the \<open>isPlaying\<close> flag cleared, the pipeline stage set to idle, the
  loudness signal zeroed) only when the stream-ended flag is set and the output clock
  has reached \<open>lastScheduledEndTimeRef\<close>; a check that does not drain leaves the state
  as it is, and so does every check made while the stream-ended flag is false, whatever
  the clock reads. In every execution the stream-ended flag is set only if an
  \<open>audio_end\<close> message has been received, and \<open>lastScheduledEndTimeRef\<close> is the end
  time of the segment scheduled last, or zero.
\<close>

lemma checkPlaybackEnded_guard:
  "(drained s (checkPlaybackEnded t s) \<longrightarrow>
      streamEndedRef s \<and> lastScheduledEndTimeRef s \<le> t
      \<and> \<not> isPlaying (checkPlaybackEnded t s)
      \<and> pipelineStage (checkPlaybackEnded t s) = Idle
      \<and> volumeLevel (checkPlaybackEnded t s) = 0
      \<and> volumeLevelRef (checkPlaybackEnded t s) = 0)
   \<and> (\<not> drained s (checkPlaybackEnded t s) \<longrightarrow> checkPlaybackEnded t s = s)
   \<and> (\<not> streamEndedRef s \<longrightarrow> checkPlaybackEnded t s = s)
   \<and> (streamEndedRef (player_run evs (player_init st)) \<longrightarrow>
        (\<exists>ev \<in> set evs. callback ev = Message (Some AudioEndMessage)))
   \<and> (lastScheduledEndTimeRef (player_run evs (player_init st)) = 0
        \<or> started (player_run evs (player_init st)) \<noteq> []
          \<and> lastScheduledEndTimeRef (player_run evs (player_init st))
              = endTime (last (started (player_run evs (player_init st)))))"
  using checkPlaybackEnded_drained [of s t] checkPlaybackEnded_not_drained [of s t]
    checkPlaybackEnded_stream_open [of s t]
    streamEnded_run [of evs "player_init st"] player_init_facts(1) [of st]
    baseline_run [of evs st]
  by blast

lemma decode_silence: "decodeChunk ''AAA='' 16000 = Inr \<lparr>samples = [0], bufferRate = 16000\<rparr>"
proof -
  have "atob ''AAA='' = Some [0, 0]" by code_simp
  then show ?thesis
    by (simp add: decodeChunk_def base64ToInt16_def createAudioBuffer_def int16ToFloat32_def
          supportedSampleRate_def)
qed

lemma decode_garbage: "decodeChunk ''!!'' 16000 = Inl InvalidCharacterError"
proof -
  have "atob ''!!'' = None" by code_simp
  then show ?thesis by (simp add: decodeChunk_def base64ToInt16_def)
qed

lemmas player_eval =
  player_run_def player_step_def handleMessage_player_def addAudioChunk_def
  AUDIO_CONFIG_sampleRate_def decode_silence Let_def getAudioContext_def player_init_def
  chat_state.defs player.defs scheduleBuffer_def setIsPlaying_def
  startVolumeMonitoring_def updateVolume_def setVolumeLevel_def truthy_def duration_def
  initialState_def

text \<open>
  Claim C1 asks that the drain transition (the \<open>isPlaying\<close> flag cleared, the pipeline
  stage set to idle, the loudness signal zeroed) occurs only when the stream-ended flag
  has been set by an \<open>audio_end\<close> message and the output clock has reached the end time
  of the last scheduled segment. The check compares the clock with
  \<open>lastScheduledEndTimeRef\<close>, which \<open>llm_start\<close> resets to zero. When a chunk is
  playing and a new turn sends \<open>llm_start\<close> and then \<open>audio_end\<close> with no chunk in
  between, the next check drains although the clock has not reached the end of the only
  scheduled segment: here that segment ends at \<open>1/16000\<close> and the check made at
  \<open>1/32000\<close> moves the scheduler to idle.
\<close>

theorem drain_before_last_segment_ends:
  "(let chunk = \<lparr>clock = 0, waveform = [128],
                 callback = Message (Some (AudioChunkMessage ''AAA='' None))\<rparr>;
        turn = \<lparr>clock = 1 / 64000, waveform = [128],
                callback = Message (Some LlmStartMessage)\<rparr>;
        ended = \<lparr>clock = 1 / 64000, waveform = [128],
                 callback = Message (Some AudioEndMessage)\<rparr>;
        s = player_run [chunk, turn, ended] (player_init (initialState [] True));
        s' = checkPlaybackEnded (1 / 32000) s
    in isPlayingRef s \<and> streamEndedRef s
       \<and> map startTime (started s) = [0]
       \<and> map endTime (started s) = [1 / 16000]
       \<and> (1 / 32000 :: real) < 1 / 16000
       \<and> drained s s'
       \<and> \<not> isPlaying s' \<and> pipelineStage s' = Idle
       \<and> volumeLevel s' = 0 \<and> volumeLevelRef s' = 0)"
proof -
  define chunk :: player_event where
    "chunk = \<lparr>clock = 0, waveform = [128],
              callback = Message (Some (AudioChunkMessage ''AAA='' None))\<rparr>"
  define turn :: player_event where
    "turn = \<lparr>clock = 1 / 64000, waveform = [128], callback = Message (Some LlmStartMessage)\<rparr>"
  define ended :: player_event where
    "ended = \<lparr>clock = 1 / 64000, waveform = [128], callback = Message (Some AudioEndMessage)\<rparr>"
  define s where "s = player_run [chunk, turn, ended] (player_init (initialState [] True))"
  have s: "streamEndedRef s" "isPlayingRef s" "lastScheduledEndTimeRef s = 0"
    "audioContextRef s \<noteq> None"
    "map startTime (started s) = [0]" "map endTime (started s) = [1 / 16000]"
    by (simp_all add: s_def chunk_def turn_def ended_def player_eval endTime_def)
  have due: "drain_due (1 / 32000) s" using s by (simp add: drain_due_def)
  then have d: "drained s (checkPlaybackEnded (1 / 32000) s)" by (simp add: drained_iff)
  show ?thesis
    unfolding Let_def chunk_def [symmetric] turn_def [symmetric] ended_def [symmetric]
      s_def [symmetric]
    using s d checkPlaybackEnded_fire [OF due] by simp
qed

subsection \<open>Undecodable chunks\<close>

lemma addAudioChunk_undecodable:
  assumes "decodeChunk base64Data (case rate of None \<Rightarrow> AUDIO_CONFIG_sampleRate | Some r \<Rightarrow> r)
             = Inl e"
  shows "addAudioChunk t w base64Data rate s
           = (getAudioContext s)\<lparr>consoleErrors := Suc (consoleErrors (getAudioContext s))\<rparr>"
  using assms by (simp add: addAudioChunk_def Let_def)

text \<open>
  Claim C8. When \<open>addAudioChunk\<close> is given chunk data that does not decode (invalid
  base64, an odd number of bytes, or a buffer the host refuses), in any state an
  execution of the scheduler can reach, the chunk is dropped with one error logged and
  the scheduler's state is as before: \<open>lastScheduledEnd\<close>, the tracked and the started
  sources, the playing flags, the loudness values, the stream-ended flag and the armed
  timers are unchanged, so the segments already scheduled go on playing.
\<close>

theorem undecodable_chunk_dropped:
  assumes "decodeChunk base64Data (case rate of None \<Rightarrow> AUDIO_CONFIG_sampleRate | Some r \<Rightarrow> r)
             = Inl e"
  shows "let s = player_run evs (player_init st);
             s' = addAudioChunk t w base64Data rate s
         in lastScheduledEndTimeRef s' = lastScheduledEndTimeRef s
            \<and> scheduledSourcesRef s' = scheduledSourcesRef s
            \<and> started s' = started s
            \<and> stopped s' = stopped s
            \<and> isPlayingRef s' = isPlayingRef s
            \<and> isPlaying s' = isPlaying s
            \<and> volumeLevel s' = volumeLevel s
            \<and> volumeLevelRef s' = volumeLevelRef s
            \<and> streamEndedRef s' = streamEndedRef s
            \<and> pipelineStage s' = pipelineStage s
            \<and> playbackCheckIntervalRef s' = playbackCheckIntervalRef s
            \<and> animationFrameRef s' = animationFrameRef s
            \<and> consoleErrors s' = Suc (consoleErrors s)"
proof -
  have i: "scheduler_inv (player_run evs (player_init st))"
    by (rule scheduler_inv_run) (rule player_init_facts)
  show ?thesis
    unfolding Let_def addAudioChunk_undecodable [OF assms]
    using getAudioContext_inv_keeps(1,2) [OF i]
    by (simp add: getAudioContext_keeps)
qed

text \<open>
  A chunk of silence is playing when a chunk that is not base64 arrives: the hypothesis
  holds of that chunk, one source stays scheduled and the scheduler stays in Playing.
\<close>

theorem undecodable_chunk_dropped_witness:
  "decodeChunk ''!!'' (case None of None \<Rightarrow> AUDIO_CONFIG_sampleRate | Some r \<Rightarrow> r)
     = Inl InvalidCharacterError
   \<and> (let chunk = \<lparr>clock = 0, waveform = [128],
                    callback = Message (Some (AudioChunkMessage ''AAA='' None))\<rparr>;
           s = player_run [chunk] (player_init (initialState [] True));
           s' = addAudioChunk (1 / 32000) [128] ''!!'' None s
       in isPlayingRef s \<and> length (scheduledSourcesRef s) = 1
          \<and> lastScheduledEndTimeRef s = 1 / 16000
          \<and> isPlayingRef s' \<and> length (scheduledSourcesRef s') = 1
          \<and> lastScheduledEndTimeRef s' = 1 / 16000
          \<and> consoleErrors s' = 1)"
proof -
  define chunk :: player_event where
    "chunk = \<lparr>clock = 0, waveform = [128],
              callback = Message (Some (AudioChunkMessage ''AAA='' None))\<rparr>"
  define s where "s = player_run [chunk] (player_init (initialState [] True))"
  have h: "decodeChunk ''!!'' (case None of None \<Rightarrow> AUDIO_CONFIG_sampleRate | Some r \<Rightarrow> r)
             = Inl InvalidCharacterError"
    by (simp add: decode_garbage AUDIO_CONFIG_sampleRate_def)
  have s: "isPlayingRef s" "length (scheduledSourcesRef s) = 1"
    "lastScheduledEndTimeRef s = 1 / 16000" "consoleErrors s = 0"
    by (simp_all add: s_def chunk_def player_eval)
  note t = undecodable_chunk_dropped [OF h, of "[chunk]" "initialState [] True" "1 / 32000" "[128]",
      unfolded Let_def, folded s_def]
  show ?thesis
    unfolding Let_def chunk_def [symmetric] s_def [symmetric]
    using h s t by simp
qed

section \<open>Properties of the capture pipeline\<close>

lemma onaudioprocess_recording:
  assumes "isRecordingRef s"
  shows "concat (chunksRef (onaudioprocess r f s))
           = concat (chunksRef s) @ float32ToInt16 (resampledFrame r f)"
    and "isRecordingRef (onaudioprocess r f s)"
  using assms
  by (simp_all add: onaudioprocess_def resampledFrame_def Let_def setVolumeLevel_def
        float32ToInt16_def split: sum.splits)

lemma chunkInterval_keeps:
  "chunksRef (chunkInterval s) = chunksRef s"
  "isRecordingRef (chunkInterval s) = isRecordingRef s"
  by (simp_all add: chunkInterval_def Let_def)

lemma recorder_step_recording:
  assumes "isRecordingRef s"
  shows "concat (chunksRef (recorder_step r cb s))
           = concat (chunksRef s) @ concat (map (\<lambda>f. float32ToInt16 (resampledFrame r f)) (frames [cb]))"
    and "isRecordingRef (recorder_step r cb s)"
  using assms
  by (cases cb; simp add: recorder_step_def onaudioprocess_recording chunkInterval_keeps)+

lemma recorder_run_Cons:
  "recorder_run r (cb # cbs) s = recorder_run r cbs (recorder_step r cb s)"
  by (simp add: recorder_run_def)

lemma frames_Cons: "frames (cb # cbs) = frames [cb] @ frames cbs"
  by (cases cb) simp_all

lemma recorder_run_recording:
  assumes "isRecordingRef s"
  shows "concat (chunksRef (recorder_run r cbs s))
           = concat (chunksRef s) @ concat (map (\<lambda>f. float32ToInt16 (resampledFrame r f)) (frames cbs))
         \<and> isRecordingRef (recorder_run r cbs s)"
  using assms
proof (induction cbs arbitrary: s)
  case Nil
  then show ?case by (simp add: recorder_run_def)
next
  case (Cons cb cbs)
  have "frames (cb # cbs) = frames [cb] @ frames cbs" by (rule frames_Cons)
  then show ?case
    using Cons.IH [OF recorder_step_recording(2) [OF Cons.prems, of r cb]]
      recorder_step_recording(1) [OF Cons.prems, of r cb]
    by (simp add: recorder_run_Cons)
qed

lemma startRecording_granted:
  "isRecordingRef (snd (startRecording onChunk (Granted r) s))"
  "chunksRef (snd (startRecording onChunk (Granted r) s)) = []"
  "fst (startRecording onChunk (Granted r) s) = None"
  "truthy (chunkIntervalRef (snd (startRecording True (Granted r) s)))"
  by (simp_all add: startRecording_def Let_def setIsRecording_def truthy_def)

lemma teardown_keeps:
  "chunksRef (teardown s) = chunksRef s"
  "\<not> isRecordingRef (teardown s)"
  "streamRef (teardown s) = None"
  "\<not> truthy (chunkIntervalRef (teardown s))"
  by (auto simp: teardown_def Let_def truthy_def split: option.splits)

lemma stopRecording_result:
  "fst (stopRecording s) = int16ToBase64 (concat (chunksRef s))"
  "\<not> isRecordingRef (snd (stopRecording s))"
  "\<not> isRecording (snd (stopRecording s))"
  "volumeLevel (snd (stopRecording s)) = 0"
  "chunksRef (snd (stopRecording s)) = []"
  "streamRef (snd (stopRecording s)) = None"
  by (simp_all add: stopRecording_def Let_def teardown_keeps setVolumeLevel_def
        setIsRecording_def)

lemma length_converted_frames:
  "length (concat (map (\<lambda>f. float32ToInt16 (g f)) fs)) = sum_list (map (\<lambda>f. length (g f)) fs)"
  by (induction fs) (simp_all add: float32ToInt16_def)

lemma decode_encode: "base64ToInt16 (int16ToBase64 pcm) = Inr pcm"
  by (simp add: base64ToInt16_def int16ToBase64_def atob_btoa int16_view_roundtrip)

text \<open>
  Claim C5, as amended. For every recording session (any frames delivered between a
  granted \<open>startRecording\<close> and \<open>stopRecording\<close>, with any firings of the chunk interval
  in between), \<open>stopRecording\<close> halts capture, resets the volume level to 0, and returns
  the base64 encoding of the concatenation of the PCM frames buffered since
  \<open>startRecording\<close>; the returned buffer decodes to a sample count equal to the sum of the
  frames' lengths after resampling (so it does for a batch recording of three frames).
  This holds in the same way for a session started in streaming mode: the buffer
  returned there is the complete recording as well.
\<close>

theorem stopRecording_returns_recording:
  "(let rec0 = snd (startRecording onChunk (Granted contextRate) s0);
        rec1 = recorder_run contextRate cbs rec0;
        pcm = concat (map (\<lambda>f. float32ToInt16 (resampledFrame contextRate f)) (frames cbs));
        encoded = fst (stopRecording rec1);
        rec2 = snd (stopRecording rec1)
    in encoded = int16ToBase64 pcm
       \<and> base64ToInt16 encoded = Inr pcm
       \<and> length pcm = sum_list (map (\<lambda>f. length (resampledFrame contextRate f)) (frames cbs))
       \<and> \<not> isRecordingRef rec2 \<and> \<not> isRecording rec2
       \<and> volumeLevel rec2 = 0
       \<and> chunksRef rec2 = [] \<and> streamRef rec2 = None)"
proof -
  define rec0 where "rec0 = snd (startRecording onChunk (Granted contextRate) s0)"
  have "concat (chunksRef (recorder_run contextRate cbs rec0))
          = concat (map (\<lambda>f. float32ToInt16 (resampledFrame contextRate f)) (frames cbs))"
    using recorder_run_recording [of rec0 contextRate cbs]
    by (simp add: rec0_def startRecording_granted)
  then show ?thesis
    unfolding Let_def rec0_def [symmetric]
    by (simp add: stopRecording_result decode_encode length_converted_frames)
qed

text \<open>
  Claim C5 as stated says that a session started in streaming-only mode returns an
  empty buffer. A streaming session (\<open>onChunk\<close> given) that captured one frame, flushed
  by the chunk interval before the stop, returns that frame: the result decodes to one
  sample.
\<close>

theorem streaming_stop_counterexample:
  "base64ToInt16 (fst (stopRecording
      (recorder_run 16000 [AudioProcess [1 / 2], ChunkInterval]
         (snd (startRecording True (Granted 16000) (recorder_init (initialState [] True)))))))
   = Inr [16383]
   \<and> emitted (recorder_run 16000 [AudioProcess [1 / 2], ChunkInterval]
         (snd (startRecording True (Granted 16000) (recorder_init (initialState [] True)))))
       = [int16ToBase64 [16383]]"
proof -
  define rec0 where
    "rec0 = snd (startRecording True (Granted 16000) (recorder_init (initialState [] True)))"
  have f: "float32ToInt16 (resampledFrame 16000 [1 / 2]) = [16383]"
    by (simp add: resampledFrame_def resampleAudio_def AUDIO_CONFIG_sampleRate_def
          float32ToInt16_def clampSample_def toInt16_def)
  have "concat (chunksRef (recorder_run 16000 [AudioProcess [1 / 2], ChunkInterval] rec0))
          = [16383]"
    using recorder_run_recording [of rec0 16000 "[AudioProcess [1 / 2], ChunkInterval]"] f
    by (simp add: rec0_def startRecording_granted)
  then have a: "base64ToInt16 (fst (stopRecording
      (recorder_run 16000 [AudioProcess [1 / 2], ChunkInterval] rec0))) = Inr [16383]"
    by (simp add: stopRecording_result decode_encode)
  have r: "resampleAudio [1 / 2] 16000 AUDIO_CONFIG_sampleRate = Inr [1 / 2]"
    by (simp add: resampleAudio_def AUDIO_CONFIG_sampleRate_def)
  have q: "float32ToInt16 [1 / 2] = [16383]" using f r by (simp add: resampledFrame_def)
  have "emitted (recorder_run 16000 [AudioProcess [1 / 2], ChunkInterval] rec0)
          = [int16ToBase64 [16383]]"
    by (simp add: rec0_def recorder_run_def recorder_step_def onaudioprocess_def r q Let_def
          startRecording_def setIsRecording_def setVolumeLevel_def truthy_def
          chunkInterval_def recorder_init_def chat_state.defs recorder.defs)
  then show ?thesis using a unfolding rec0_def by simp
qed

end
